theory Spec2Isabelle
  imports Main
begin

section \<open>Pattern parsing and AST building (lib/Parse/ParsePattern.cpp)\<close>

subsection \<open>Expressions, types and patterns\<close>

text \<open>
  Expressions are produced by the general expression parser only; here an expression is
  an opaque value that is stored in tuple elements and copied into tuple types.
\<close>

datatype Expr = Expr string

text \<open>
  \<open>Type\<close> is a nullable handle in the source (\<open>Type()\<close> is the null type), so the null
  value is a constructor. \<open>TupleType::get\<close> builds a tuple type from its ordered elements,
  \<open>FunctionType::get\<close> a function type from input and result.
\<close>

datatype Type =
    NullType
  | NamedType string
  | TupleType "TupleTypeElt list"
  | FunctionType Type Type
and TupleTypeElt = TupleTypeElt Type string "Expr option"

text \<open>
  Modelled from the spec: \<open>TupleType::getEmpty\<close> is declared outside this file; the spec
  calls its result the empty-tuple type.
\<close>

definition TupleType_getEmpty :: Type where
  "TupleType_getEmpty = TupleType []"

text \<open>
  Modelled from the spec: the pattern classes are declared in a header outside this file.
  The spec gives five variants, each carrying an optional resolved type; a \<open>Typed\<close> node
  carries its explicit type, every other node starts with the null type. The last field
  of every constructor is the node's type (\<open>getType\<close>/\<open>setType\<close>). Source locations are
  left out; a diagnostic records the token or the pattern it points at.
\<close>

datatype Pattern =
    AnyPattern Type
  | NamedPattern string Type
  | ParenPattern Pattern Type
  | TuplePattern "TuplePatternElt list" Type
  | TypedPattern Pattern Type
and TuplePatternElt = TuplePatternElt Pattern "Expr option"

fun getType :: "Pattern \<Rightarrow> Type" where
  "getType (AnyPattern t) = t"
| "getType (NamedPattern v t) = t"
| "getType (ParenPattern sub t) = t"
| "getType (TuplePattern elts t) = t"
| "getType (TypedPattern sub t) = t"

fun getPattern :: "TuplePatternElt \<Rightarrow> Pattern" where
  "getPattern (TuplePatternElt p i) = p"

fun getInit :: "TuplePatternElt \<Rightarrow> Expr option" where
  "getInit (TuplePatternElt p i) = i"



subsection \<open>Tokens, diagnostics and the parser state\<close>

datatype tok =
    tok_l_paren | tok_l_paren_space | tok_r_paren | tok_identifier | tok_colon
  | tok_equal | tok_comma | tok_arrow | tok_eof | tok_other

record Token =
  Kind :: tok
  Text :: string

datatype diag_id =
    untyped_pattern_in_function_signature
  | expected_pattern
  | expected_rparen_tuple_pattern_list
  | expected_initializer_expr
  | other_diag string

datatype Diagnostic =
    DiagAtToken Token diag_id
  | DiagAtPattern Pattern diag_id

text \<open>
  The parser state this file reads and writes: the tokens not yet consumed (the lexer
  yields \<open>eof\<close> after the last one) and the diagnostics emitted so far, oldest first.
\<close>

record Parser =
  Toks :: "Token list"
  Diags :: "Diagnostic list"

definition Tok :: "Parser \<Rightarrow> Token" where
  "Tok P = (case Toks P of [] \<Rightarrow> \<lparr>Kind = tok_eof, Text = []\<rparr> | t # ts \<Rightarrow> t)"

definition Tok_is :: "Parser \<Rightarrow> tok \<Rightarrow> bool" where
  "Tok_is P k = (Kind (Tok P) = k)"

definition diagnose :: "Diagnostic \<Rightarrow> Parser \<Rightarrow> Parser" where
  "diagnose d P = P\<lparr>Diags := Diags P @ [d]\<rparr>"

subsection \<open>checkFullyTyped\<close>

text \<open>
  The checker returns \<open>true\<close> on failure. It writes types into the nodes it visits, so the
  model returns the pattern as it is after the call, together with the parser whose
  diagnostics it extends. \<open>getBoundName\<close> is declared outside this file and is a parameter.
  The loop over the fields of a tuple is \<open>checkFullyTyped_fields\<close>; it carries \<open>typeElts\<close>.
\<close>

fun checkFullyTyped ::
    "(Pattern \<Rightarrow> string) \<Rightarrow> Parser \<Rightarrow> Pattern \<Rightarrow> bool \<times> Pattern \<times> Parser"
and checkFullyTyped_fields ::
    "(Pattern \<Rightarrow> string) \<Rightarrow> Parser \<Rightarrow> TuplePatternElt list \<Rightarrow> TupleTypeElt list
      \<Rightarrow> bool \<times> TuplePatternElt list \<times> TupleTypeElt list \<times> Parser"
where
  "checkFullyTyped bn P (TypedPattern sub t) = (False, TypedPattern sub t, P)"
| "checkFullyTyped bn P (ParenPattern sub t) =
     (case checkFullyTyped bn P sub of (failed, sub', P') \<Rightarrow>
        if failed then (True, ParenPattern sub' t, P')
        else (False, ParenPattern sub' (getType sub'), P'))"
| "checkFullyTyped bn P (TuplePattern elts t) =
     (case checkFullyTyped_fields bn P elts [] of (failed, elts', typeElts, P') \<Rightarrow>
        if failed then (True, TuplePattern elts' t, P')
        else (False, TuplePattern elts' (TupleType typeElts), P'))"
| "checkFullyTyped bn P (NamedPattern v t) =
     (True, NamedPattern v t,
      diagnose (DiagAtPattern (NamedPattern v t) untyped_pattern_in_function_signature) P)"
| "checkFullyTyped bn P (AnyPattern t) =
     (True, AnyPattern t,
      diagnose (DiagAtPattern (AnyPattern t) untyped_pattern_in_function_signature) P)"
| "checkFullyTyped_fields bn P [] typeElts = (False, [], typeElts, P)"
| "checkFullyTyped_fields bn P (TuplePatternElt subpattern init # rest) typeElts =
     (case checkFullyTyped bn P subpattern of (failed, subpattern', P') \<Rightarrow>
        if failed then (True, TuplePatternElt subpattern' init # rest, typeElts, P')
        else
          (case checkFullyTyped_fields bn P' rest
                  (typeElts @ [TupleTypeElt (getType subpattern') (bn subpattern') init])
           of (failed', rest', typeElts', P'') \<Rightarrow>
                (failed', TuplePatternElt subpattern' init # rest', typeElts', P'')))"

subsection \<open>Token-stream primitives\<close>

text \<open>
  Modelled from the spec: \<open>consumeToken\<close>, \<open>consumeIf\<close> and \<open>skipUntil\<close> are members
  of the parser defined outside this file. The spec lists them as: consume the current
  token, consume it if it has the expected kind, and skip forward until a target kind; for
  the tuple parser it says that recovery skips tokens up to and including the next
  closing parenthesis. Every \<open>consumeToken(kind)\<close> of this file follows a test that the
  current token has that kind.
\<close>

definition consumeToken :: "Parser \<Rightarrow> Parser" where
  "consumeToken P = P\<lparr>Toks := tl (Toks P)\<rparr>"

definition consumeIf :: "tok \<Rightarrow> Parser \<Rightarrow> bool \<times> Parser" where
  "consumeIf k P = (if Tok_is P k then (True, consumeToken P) else (False, P))"

definition skipUntil :: "tok \<Rightarrow> Parser \<Rightarrow> Parser" where
  "skipUntil k P = P\<lparr>Toks := drop 1 (dropWhile (\<lambda>t. Kind t \<noteq> k) (Toks P))\<rparr>"

subsection \<open>Parse results and the external parsers\<close>

text \<open>
  \<open>ParseResult<T>\<close> is a value, a parse error (what \<open>return true\<close> constructs) or a
  semantic error, which carries no value.
\<close>

datatype 'a ParseResult = Success 'a | ParseError | SemaError

fun isParseError :: "'a ParseResult \<Rightarrow> bool" where
  "isParseError ParseError = True"
| "isParseError _ = False"

fun isSemaError :: "'a ParseResult \<Rightarrow> bool" where
  "isSemaError SemaError = True"
| "isSemaError _ = False"

text \<open>
  The expression parser, the type parser and \<open>Pattern::getBoundName\<close> are defined outside
  this file; the functions below take them as a parameter. \<open>parseType\<close> returns \<open>None\<close>
  where the source returns \<open>true\<close> (an error), and the parsed type otherwise.
\<close>

record Ext =
  parseExpr :: "diag_id \<Rightarrow> Parser \<Rightarrow> Expr ParseResult \<times> Parser"
  parseType :: "Parser \<Rightarrow> Type option \<times> Parser"
  getBoundName :: "Pattern \<Rightarrow> string"

text \<open>
  A call either runs out of fuel (\<open>None\<close>), stops at a failed assertion, or returns a value
  and the parser state after it.
\<close>

datatype error = AssertionFailed

type_synonym 'a run = "(error + 'a \<times> Parser) option"

definition ret :: "'a \<Rightarrow> Parser \<Rightarrow> 'a run" where
  "ret a P = Some (Inr (a, P))"

definition bind_run :: "'a run \<Rightarrow> ('a \<Rightarrow> Parser \<Rightarrow> 'b run) \<Rightarrow> 'b run" where
  "bind_run m f =
     (case m of None \<Rightarrow> None | Some (Inl e) \<Rightarrow> Some (Inl e) | Some (Inr (a, P)) \<Rightarrow> f a P)"

text \<open>A call returns, and leaves at most \<open>k\<close> tokens.\<close>

definition returns_within :: "'a run \<Rightarrow> nat \<Rightarrow> bool" where
  "returns_within m k = (case m of Some (Inr (a, P')) \<Rightarrow> length (Toks P') \<le> k | _ \<Rightarrow> False)"

text \<open>How a loop is left: by the \<open>return true\<close> inside it, or by its exit condition.\<close>

datatype 'a loop_exit = ReturnTrue | LoopDone 'a

subsection \<open>parsePattern, parsePatternAtom, parsePatternTuple\<close>

text \<open>
  The three parsers call each other, and the do-while loop of \<open>parsePatternTuple\<close> is
  \<open>parsePatternTuple_elts\<close>, which carries \<open>elts\<close> and \<open>hasSemaError\<close>. Every call of
  \<open>parsePatternTuple\<close> and every iteration of its loop uses one unit of fuel.
\<close>

fun parsePattern :: "Ext \<Rightarrow> nat \<Rightarrow> Parser \<Rightarrow> Pattern ParseResult run"
and parsePatternAtom :: "Ext \<Rightarrow> nat \<Rightarrow> Parser \<Rightarrow> Pattern ParseResult run"
and parsePatternTuple :: "Ext \<Rightarrow> nat \<Rightarrow> Parser \<Rightarrow> Pattern ParseResult run"
and parsePatternTuple_elts ::
    "Ext \<Rightarrow> nat \<Rightarrow> TuplePatternElt list \<Rightarrow> bool \<Rightarrow> Parser
      \<Rightarrow> (TuplePatternElt list \<times> bool) loop_exit run"
where
  "parsePattern ext n P =
     bind_run (parsePatternAtom ext n P) (\<lambda>pattern P1.
       if isParseError pattern then ret ParseError P1
       else
         (case consumeIf tok_colon P1 of
            (True, P2) \<Rightarrow>
              (case parseType ext P2 of
                 (None, P3) \<Rightarrow> ret ParseError P3
               | (Some type, P3) \<Rightarrow>
                   (case pattern of
                      Success p \<Rightarrow> ret (Success (TypedPattern p type)) P3
                    | _ \<Rightarrow> ret pattern P3))
          | (False, P2) \<Rightarrow> ret pattern P2))"
| "parsePatternAtom ext n P =
     (case Kind (Tok P) of
        tok_l_paren \<Rightarrow> parsePatternTuple ext n P
      | tok_l_paren_space \<Rightarrow> parsePatternTuple ext n P
      | tok_identifier \<Rightarrow>
          (let text = Text (Tok P); P1 = consumeToken P
           in if text = ''_'' then ret (Success (AnyPattern NullType)) P1
              else ret (Success (NamedPattern text NullType)) P1)
      | _ \<Rightarrow> ret ParseError (diagnose (DiagAtToken (Tok P) expected_pattern) P))"
| "parsePatternTuple ext 0 P = None"
| "parsePatternTuple ext (Suc n) P =
     (if \<not> (Tok_is P tok_l_paren \<or> Tok_is P tok_l_paren_space) then Some (Inl AssertionFailed)
      else
        let P1 = consumeToken P in
        bind_run
          (if \<not> Tok_is P1 tok_r_paren then
             bind_run (parsePatternTuple_elts ext n [] False P1) (\<lambda>r P2.
               case r of
                 ReturnTrue \<Rightarrow> ret ReturnTrue P2
               | LoopDone (elts, hasSemaError) \<Rightarrow>
                   if \<not> Tok_is P2 tok_r_paren then
                     ret ReturnTrue
                       (skipUntil tok_r_paren
                          (diagnose (DiagAtToken (Tok P2) expected_rparen_tuple_pattern_list) P2))
                   else ret (LoopDone (elts, hasSemaError)) P2)
           else ret (LoopDone ([], False)) P1)
          (\<lambda>r P2.
             case r of
               ReturnTrue \<Rightarrow> ret ParseError P2
             | LoopDone (elts, hasSemaError) \<Rightarrow>
                 let P3 = consumeToken P2 in
                 if hasSemaError then ret SemaError P3
                 else if length elts = 1 \<and> getInit (elts ! 0) = None
                         \<and> getBoundName ext (getPattern (elts ! 0)) = []
                 then ret (Success (ParenPattern (getPattern (elts ! 0)) NullType)) P3
                 else ret (Success (TuplePattern elts NullType)) P3))"
| "parsePatternTuple_elts ext 0 elts hasSemaError P = None"
| "parsePatternTuple_elts ext (Suc n) elts hasSemaError P =
     bind_run (parsePattern ext n P) (\<lambda>pattern P1.
       if isParseError pattern then ret ReturnTrue (skipUntil tok_r_paren P1)
       else
         (case
            (case consumeIf tok_equal P1 of
               (True, P2) \<Rightarrow>
                 (case parseExpr ext expected_initializer_expr P2 of
                    (ParseError, P3) \<Rightarrow> Inl (skipUntil tok_r_paren P3)
                  | (SemaError, P3) \<Rightarrow> Inr (None, True, P3)
                  | (Success e, P3) \<Rightarrow> Inr (Some e, hasSemaError, P3))
             | (False, P2) \<Rightarrow> Inr (None, hasSemaError, P2))
          of
            Inl P3 \<Rightarrow> ret ReturnTrue P3
          | Inr (init, hasSemaError1, P3) \<Rightarrow>
              (case
                 (case pattern of
                    Success p \<Rightarrow> (elts @ [TuplePatternElt p init], hasSemaError1)
                  | _ \<Rightarrow> (elts, True))
               of (elts', hasSemaError2) \<Rightarrow>
                 (case consumeIf tok_comma P3 of
                    (True, P4) \<Rightarrow> parsePatternTuple_elts ext n elts' hasSemaError2 P4
                  | (False, P4) \<Rightarrow> ret (LoopDone (elts', hasSemaError2)) P4))))"

text \<open>
  The iterations of the element loop: the fuel, \<open>elts\<close>, \<open>hasSemaError\<close> and the parser
  state at the start of each iteration, in order. An iteration is followed by another one
  when neither the pattern nor the initializer is a parse error and a comma follows.
\<close>

fun parsePatternTuple_elts_iterations ::
    "Ext \<Rightarrow> nat \<Rightarrow> TuplePatternElt list \<Rightarrow> bool \<Rightarrow> Parser
      \<Rightarrow> (nat \<times> TuplePatternElt list \<times> bool \<times> Parser) list"
where
  "parsePatternTuple_elts_iterations ext 0 elts hasSemaError P = []"
| "parsePatternTuple_elts_iterations ext (Suc n) elts hasSemaError P =
     (Suc n, elts, hasSemaError, P) #
     (case parsePattern ext n P of
        Some (Inr (pattern, P1)) \<Rightarrow>
          if isParseError pattern then []
          else
            (case
               (case consumeIf tok_equal P1 of
                  (True, P2) \<Rightarrow>
                    (case parseExpr ext expected_initializer_expr P2 of
                       (ParseError, P3) \<Rightarrow> Inl (skipUntil tok_r_paren P3)
                     | (SemaError, P3) \<Rightarrow> Inr (None, True, P3)
                     | (Success e, P3) \<Rightarrow> Inr (Some e, hasSemaError, P3))
                | (False, P2) \<Rightarrow> Inr (None, hasSemaError, P2))
             of
               Inl P3 \<Rightarrow> []
             | Inr (init, hasSemaError1, P3) \<Rightarrow>
                 (case
                    (case pattern of
                       Success p \<Rightarrow> (elts @ [TuplePatternElt p init], hasSemaError1)
                     | _ \<Rightarrow> (elts, True))
                  of (elts', hasSemaError2) \<Rightarrow>
                    (case consumeIf tok_comma P3 of
                       (True, P4) \<Rightarrow>
                         parsePatternTuple_elts_iterations ext n elts' hasSemaError2 P4
                     | (False, P4) \<Rightarrow> [])))
      | _ \<Rightarrow> [])"

subsection \<open>parseFunctionSignature\<close>

text \<open>
  The do-while loop over the curried argument clauses. It returns whether it was left by
  \<open>return true\<close>, with \<open>params\<close> and \<open>hasSemaError\<close> as they are at that point.
\<close>

fun parseFunctionSignature_clauses ::
    "Ext \<Rightarrow> nat \<Rightarrow> Pattern list \<Rightarrow> bool \<Rightarrow> Parser \<Rightarrow> (bool \<times> Pattern list \<times> bool) run"
where
  "parseFunctionSignature_clauses ext 0 params hasSemaError P = None"
| "parseFunctionSignature_clauses ext (Suc n) params hasSemaError P =
     bind_run (parsePatternTuple ext n P) (\<lambda>pattern P1.
       case pattern of
         ParseError \<Rightarrow> ret (True, params, hasSemaError) P1
       | _ \<Rightarrow>
           (case
              (case pattern of
                 Success p \<Rightarrow> (params @ [p], hasSemaError)
               | _ \<Rightarrow> (params, True))
            of (params', hasSemaError') \<Rightarrow>
              if Tok_is P1 tok_l_paren \<or> Tok_is P1 tok_l_paren_space
              then parseFunctionSignature_clauses ext n params' hasSemaError' P1
              else ret (False, params', hasSemaError') P1))"

text \<open>
  The loop that builds the function type, \<open>i\<close> running from \<open>params.size()\<close> down to 1.
  The checker writes into \<open>params[i - 1]\<close>.
\<close>

fun parseFunctionSignature_build ::
    "Ext \<Rightarrow> nat \<Rightarrow> Pattern list \<Rightarrow> Type \<Rightarrow> Parser \<Rightarrow> Pattern list \<times> Type \<times> Parser"
where
  "parseFunctionSignature_build ext 0 params type P = (params, type, P)"
| "parseFunctionSignature_build ext (Suc j) params type P =
     (case checkFullyTyped (getBoundName ext) P (params ! j) of (failed, param, P') \<Rightarrow>
        let paramType = (if failed then TupleType_getEmpty else getType param)
        in parseFunctionSignature_build ext j (params[j := param])
             (FunctionType paramType type) P')"

text \<open>
  \<open>params\<close> and \<open>type\<close> are reference parameters: the model takes their values at entry
  and returns the error flag with their values at exit.
\<close>

definition parseFunctionSignature ::
    "Ext \<Rightarrow> nat \<Rightarrow> Pattern list \<Rightarrow> Type \<Rightarrow> Parser \<Rightarrow> (bool \<times> Pattern list \<times> Type) run"
where
  "parseFunctionSignature ext n params type P =
     bind_run (parseFunctionSignature_clauses ext n params False P) (\<lambda>r P1.
       case r of (returned, params1, hasSemaError) \<Rightarrow>
         if returned then ret (True, params1, type) P1
         else
           (case
              (case consumeIf tok_arrow P1 of
                 (True, P2) \<Rightarrow>
                   (case parseType ext P2 of
                      (None, P3) \<Rightarrow> Inl P3
                    | (Some t, P3) \<Rightarrow> Inr (t, P3))
               | (False, P2) \<Rightarrow> Inr (TupleType_getEmpty, P2))
            of
              Inl P3 \<Rightarrow> ret (True, params1, type) P3
            | Inr (type1, P3) \<Rightarrow>
                (case parseFunctionSignature_build ext (length params1) params1 type1 P3 of
                   (params2, type2, P4) \<Rightarrow> ret (False, params2, type2) P4)))"

subsection \<open>Observations of parseFunctionSignature\<close>



text \<open>
  The parameter type that the type-building loop uses for a clause pattern, the checker
  being run in the parser state \<open>P\<close>.
\<close>

definition paramType :: "(Pattern \<Rightarrow> string) \<Rightarrow> Parser \<Rightarrow> Pattern \<Rightarrow> Type" where
  "paramType bn P param =
     (case checkFullyTyped bn P param of (failed, param', P') \<Rightarrow>
        if failed then TupleType_getEmpty else getType param')"

subsection \<open>A small instance of the external parsers\<close>

text \<open>
  A type is one identifier; anything else is an error with a diagnostic. An expression is
  one token: a literal (kind \<open>tok_other\<close>) parses, an identifier parses but does not
  resolve (a semantic error), anything else is a parse error.
\<close>

definition simple_parseType :: "Parser \<Rightarrow> Type option \<times> Parser" where
  "simple_parseType P =
     (if Tok_is P tok_identifier then (Some (NamedType (Text (Tok P))), consumeToken P)
      else (None, diagnose (DiagAtToken (Tok P) (other_diag ''expected type'')) P))"

definition simple_parseExpr :: "diag_id \<Rightarrow> Parser \<Rightarrow> Expr ParseResult \<times> Parser" where
  "simple_parseExpr d P =
     (if Tok_is P tok_other then (Success (Expr (Text (Tok P))), consumeToken P)
      else if Tok_is P tok_identifier then
        (SemaError,
         consumeToken (diagnose (DiagAtToken (Tok P) (other_diag ''unresolved identifier'')) P))
      else (ParseError, diagnose (DiagAtToken (Tok P) d) P))"

text \<open>
  Modelled from the spec: \<open>Pattern::getBoundName\<close> is defined outside this file. The spec
  says the bound name is the name of a \<open>Named\<close> pattern and empty otherwise, and that
  elaborating \<open>(a: Int, b: String)\<close> gives the components \<open>(Int, a)\<close> and \<open>(String, b)\<close>, so
  the name is read through a type annotation.
\<close>

fun simple_getBoundName :: "Pattern \<Rightarrow> string" where
  "simple_getBoundName (NamedPattern v t) = v"
| "simple_getBoundName (TypedPattern sub t) = simple_getBoundName sub"
| "simple_getBoundName _ = []"

definition simple_ext :: Ext where
  "simple_ext =
     \<lparr>parseExpr = simple_parseExpr, parseType = simple_parseType,
      getBoundName = simple_getBoundName\<rparr>"

definition mkTok :: "tok \<Rightarrow> string \<Rightarrow> Token" where
  "mkTok k s = \<lparr>Kind = k, Text = s\<rparr>"

definition lex_start :: "Token list \<Rightarrow> Parser" where
  "lex_start ts = \<lparr>Toks = ts, Diags = []\<rparr>"

subsection \<open>What the tuple loop of the checker computes for one element\<close>

text \<open>
  \<open>typeElt\<close> is the \<open>TupleTypeElt\<close> the loop pushes for an element whose pattern has been
  checked: the pattern's type, its bound name and the element's initializer.
  \<open>checked_elt\<close> is a tuple element after the checker has run on its pattern.
\<close>

definition typeElt :: "(Pattern \<Rightarrow> string) \<Rightarrow> TuplePatternElt \<Rightarrow> TupleTypeElt" where
  "typeElt bn e = TupleTypeElt (getType (getPattern e)) (bn (getPattern e)) (getInit e)"

definition checked_elt ::
    "(Pattern \<Rightarrow> string) \<Rightarrow> Parser \<Rightarrow> TuplePatternElt \<Rightarrow> TuplePatternElt" where
  "checked_elt bn P e =
     TuplePatternElt (fst (snd (checkFullyTyped bn P (getPattern e)))) (getInit e)"

subsection \<open>Example inputs\<close>

text \<open>The elements of \<open>(a: Int, b: String)\<close> and of \<open>(a: Int, x, (_: Int))\<close>.\<close>

definition ex_ab :: "TuplePatternElt list" where
  "ex_ab =
     [TuplePatternElt (TypedPattern (NamedPattern ''a'' NullType) (NamedType ''Int'')) None,
      TuplePatternElt (TypedPattern (NamedPattern ''b'' NullType) (NamedType ''String'')) None]"

definition ex_ax :: "TuplePatternElt list" where
  "ex_ax =
     [TuplePatternElt (TypedPattern (NamedPattern ''a'' NullType) (NamedType ''Int'')) None,
      TuplePatternElt (NamedPattern ''x'' NullType) None,
      TuplePatternElt
        (ParenPattern (TypedPattern (AnyPattern NullType) (NamedType ''Int'')) NullType) None]"



definition toks_ab :: "Token list" where
  "toks_ab =
     [mkTok tok_l_paren ''('', mkTok tok_identifier ''a'', mkTok tok_colon '':'',
      mkTok tok_identifier ''Int'', mkTok tok_comma '','', mkTok tok_identifier ''b'',
      mkTok tok_colon '':'', mkTok tok_identifier ''String'', mkTok tok_r_paren '')'']"

definition toks_x_y_Int :: "Token list" where
  "toks_x_y_Int =
     [mkTok tok_l_paren ''('', mkTok tok_identifier ''x'', mkTok tok_r_paren '')'',
      mkTok tok_l_paren ''('', mkTok tok_identifier ''y'', mkTok tok_colon '':'',
      mkTok tok_identifier ''Int'', mkTok tok_r_paren '')'',
      mkTok tok_arrow ''->'', mkTok tok_identifier ''Int'']"

definition toks_xu_y_Int :: "Token list" where
  "toks_xu_y_Int =
     [mkTok tok_l_paren ''('', mkTok tok_identifier ''x'', mkTok tok_equal ''='',
      mkTok tok_identifier ''u'', mkTok tok_r_paren '')'',
      mkTok tok_l_paren ''('', mkTok tok_identifier ''y'', mkTok tok_colon '':'',
      mkTok tok_identifier ''Int'', mkTok tok_r_paren '')'',
      mkTok tok_arrow ''->'', mkTok tok_identifier ''Int'']"

definition toks_nested_xu_y :: "Token list" where
  "toks_nested_xu_y =
     [mkTok tok_l_paren ''('',
      mkTok tok_l_paren ''('', mkTok tok_identifier ''x'', mkTok tok_equal ''='',
      mkTok tok_identifier ''u'', mkTok tok_r_paren '')'',
      mkTok tok_comma '','', mkTok tok_identifier ''y'', mkTok tok_r_paren '')'']"

definition toks_xu_colon :: "Token list" where
  "toks_xu_colon =
     [mkTok tok_l_paren ''('', mkTok tok_identifier ''x'', mkTok tok_equal ''='',
      mkTok tok_identifier ''u'', mkTok tok_r_paren '')'',
      mkTok tok_colon '':'', mkTok tok_l_paren ''('']"

text \<open>Further streams: \<open>(x = u) : Int\<close>, \<open>( , )\<close>, \<open>(x = ) y )\<close> and \<open>(x: Int\<close>.\<close>

definition toks_xu_colon_Int :: "Token list" where
  "toks_xu_colon_Int =
     [mkTok tok_l_paren ''('', mkTok tok_identifier ''x'', mkTok tok_equal ''='',
      mkTok tok_identifier ''u'', mkTok tok_r_paren '')'',
      mkTok tok_colon '':'', mkTok tok_identifier ''Int'']"

definition toks_comma_first :: "Token list" where
  "toks_comma_first =
     [mkTok tok_l_paren ''('', mkTok tok_comma '','', mkTok tok_r_paren '')'']"

definition toks_bad_init :: "Token list" where
  "toks_bad_init =
     [mkTok tok_l_paren ''('', mkTok tok_identifier ''x'', mkTok tok_equal ''='',
      mkTok tok_r_paren '')'', mkTok tok_identifier ''y'', mkTok tok_r_paren '')'']"

definition toks_unclosed :: "Token list" where
  "toks_unclosed =
     [mkTok tok_l_paren ''('', mkTok tok_identifier ''x'', mkTok tok_colon '':'',
      mkTok tok_identifier ''Int'']"

text \<open>The element \<open>(x = u) = 1\<close> followed by the closing parenthesis of its tuple.\<close>

definition toks_xu_eq_1 :: "Token list" where
  "toks_xu_eq_1 =
     [mkTok tok_l_paren ''('', mkTok tok_identifier ''x'', mkTok tok_equal ''='',
      mkTok tok_identifier ''u'', mkTok tok_r_paren '')'',
      mkTok tok_equal ''='', mkTok tok_other ''1'', mkTok tok_r_paren '')'']"

text \<open>
  Signatures without a return type: \<open>()\<close> and \<open>(x = u)(y: Int)\<close>. Tuples whose second
  element fails: \<open>(a, ,)\<close>, where no pattern follows the comma, and \<open>(a, x = )\<close>, where no
  expression follows the \<open>=\<close>.
\<close>

definition toks_unit :: "Token list" where
  "toks_unit = [mkTok tok_l_paren ''('', mkTok tok_r_paren '')'']"


definition toks_a_comma_comma :: "Token list" where
  "toks_a_comma_comma =
     [mkTok tok_l_paren ''('', mkTok tok_identifier ''a'', mkTok tok_comma '','',
      mkTok tok_comma '','', mkTok tok_r_paren '')'']"

definition toks_a_x_bad_init :: "Token list" where
  "toks_a_x_bad_init =
     [mkTok tok_l_paren ''('', mkTok tok_identifier ''a'', mkTok tok_comma '','',
      mkTok tok_identifier ''x'', mkTok tok_equal ''='', mkTok tok_r_paren '')'']"


section \<open>Properties of the checker\<close>

text \<open>A successful check emits no diagnostic: the parser is returned as it was.\<close>

lemma cft_success_state:
  "checkFullyTyped bn P p = (False, p', P') \<Longrightarrow> P' = P"
  "checkFullyTyped_fields bn P es acc = (False, es', tes, P') \<Longrightarrow> P' = P"
proof (induction bn P p and bn P es acc arbitrary: p' P' and es' tes P'
       rule: checkFullyTyped_checkFullyTyped_fields.induct)
  case (1 bn P sub t)
  then show ?case by simp
next
  case (2 bn P sub t)
  obtain f sp Q where c: "checkFullyTyped bn P sub = (f, sp, Q)"
    by (cases "checkFullyTyped bn P sub")
  with "2.prems" have "f = False" "P' = Q" by (auto split: if_splits)
  with "2.IH" c show ?case by simp
next
  case (3 bn P elts t)
  obtain f es2 tes Q where c: "checkFullyTyped_fields bn P elts [] = (f, es2, tes, Q)"
    by (cases "checkFullyTyped_fields bn P elts []")
  with "3.prems" have "f = False" "P' = Q" by (auto split: if_splits)
  with "3.IH" c show ?case by simp
next
  case (4 bn P v t)
  then show ?case by simp
next
  case (5 bn P t)
  then show ?case by simp
next
  case (6 bn P typeElts)
  then show ?case by simp
next
  case (7 bn P subpattern init rest typeElts)
  obtain f sp Q where c: "checkFullyTyped bn P subpattern = (f, sp, Q)"
    by (cases "checkFullyTyped bn P subpattern")
  obtain f2 r2 t2 Q2 where r:
    "checkFullyTyped_fields bn Q rest (typeElts @ [TupleTypeElt (getType sp) (bn sp) init])
       = (f2, r2, t2, Q2)"
    by (cases "checkFullyTyped_fields bn Q rest
                 (typeElts @ [TupleTypeElt (getType sp) (bn sp) init])")
  from "7.prems" c r have f: "f = False" "f2 = False" "P' = Q2" by (auto split: if_splits)
  from "7.IH"(1) c f have "Q = P" by simp
  moreover from "7.IH"(2)[OF c[symmetric]] c r f have "Q2 = Q" by simp
  ultimately show ?case using f by simp
qed


lemma cft_fields_typeElts:
  "checkFullyTyped_fields bn P es acc = (False, es', tes, P') \<Longrightarrow> tes = acc @ map (typeElt bn) es'"
proof (induction es arbitrary: P acc es' tes P')
  case Nil
  then show ?case by simp
next
  case (Cons e es)
  obtain sub i where e: "e = TuplePatternElt sub i" by (cases e)
  obtain f sp Q where c: "checkFullyTyped bn P sub = (f, sp, Q)"
    by (cases "checkFullyTyped bn P sub")
  obtain f2 r2 t2 Q2 where r:
    "checkFullyTyped_fields bn Q es (acc @ [TupleTypeElt (getType sp) (bn sp) i]) = (f2, r2, t2, Q2)"
    by (cases "checkFullyTyped_fields bn Q es (acc @ [TupleTypeElt (getType sp) (bn sp) i])")
  from Cons.prems e c r have f: "f = False" "f2 = False" "es' = TuplePatternElt sp i # r2" "tes = t2"
    by (auto split: if_splits)
  from r f have "t2 = (acc @ [TupleTypeElt (getType sp) (bn sp) i]) @ map (typeElt bn) r2"
    using Cons.IH by blast
  with f show ?case by (simp add: typeElt_def)
qed

lemma cft_idem:
  "checkFullyTyped bn P p = (False, p', P') \<Longrightarrow> checkFullyTyped bn Q p' = (False, p', Q)"
  "checkFullyTyped_fields bn P es acc = (False, es', tes, P') \<Longrightarrow>
     checkFullyTyped_fields bn Q es' acc2 = (False, es', acc2 @ map (typeElt bn) es', Q)"
proof (induction bn P p and bn P es acc arbitrary: p' P' Q and es' tes P' Q acc2
       rule: checkFullyTyped_checkFullyTyped_fields.induct)
  case (1 bn P sub t)
  then show ?case by auto
next
  case (2 bn P sub t)
  obtain f sp P1 where c: "checkFullyTyped bn P sub = (f, sp, P1)"
    by (cases "checkFullyTyped bn P sub")
  with "2.prems" have f: "f = False" "p' = ParenPattern sp (getType sp)" by (auto split: if_splits)
  from "2.IH" c f have "checkFullyTyped bn Q sp = (False, sp, Q)" by simp
  with f show ?case by simp
next
  case (3 bn P elts t)
  obtain f es2 tes P1 where c: "checkFullyTyped_fields bn P elts [] = (f, es2, tes, P1)"
    by (cases "checkFullyTyped_fields bn P elts []")
  with "3.prems" have f: "f = False" "p' = TuplePattern es2 (TupleType tes)"
    by (auto split: if_splits)
  from c f cft_fields_typeElts[of bn P elts "[]" es2 tes P1] have tes: "tes = map (typeElt bn) es2"
    by simp
  from "3.IH"[of es2 tes P1 Q "[]"] c f
  have "checkFullyTyped_fields bn Q es2 [] = (False, es2, map (typeElt bn) es2, Q)" by simp
  with f tes show ?case by simp
next
  case (4 bn P v t)
  then show ?case by simp
next
  case (5 bn P t)
  then show ?case by simp
next
  case (6 bn P typeElts)
  then show ?case by simp
next
  case (7 bn P subpattern init rest typeElts)
  obtain f sp P1 where c: "checkFullyTyped bn P subpattern = (f, sp, P1)"
    by (cases "checkFullyTyped bn P subpattern")
  obtain f2 r2 t2 Q2 where r:
    "checkFullyTyped_fields bn P1 rest (typeElts @ [TupleTypeElt (getType sp) (bn sp) init])
       = (f2, r2, t2, Q2)"
    by (cases "checkFullyTyped_fields bn P1 rest
                 (typeElts @ [TupleTypeElt (getType sp) (bn sp) init])")
  from "7.prems" c r have f: "f = False" "f2 = False" "es' = TuplePatternElt sp init # r2"
    by (auto split: if_splits)
  from "7.IH"(1) c f have i1: "checkFullyTyped bn Q sp = (False, sp, Q)" by simp
  from "7.IH"(2)[OF c[symmetric]] c r f
  have i2: "checkFullyTyped_fields bn Q r2 (acc2 @ [typeElt bn (TuplePatternElt sp init)])
              = (False, r2, (acc2 @ [typeElt bn (TuplePatternElt sp init)]) @ map (typeElt bn) r2, Q)"
    by simp
  show ?case using f i1 i2 by (simp add: typeElt_def)
qed


lemma cft_fields_all_ok:
  "\<forall>e\<in>set es. \<not> fst (checkFullyTyped bn P (getPattern e)) \<Longrightarrow>
   checkFullyTyped_fields bn P es acc =
     (False, map (checked_elt bn P) es, acc @ map (typeElt bn) (map (checked_elt bn P) es), P)"
proof (induction es arbitrary: acc)
  case Nil
  then show ?case by simp
next
  case (Cons e es)
  obtain sub i where e: "e = TuplePatternElt sub i" by (cases e)
  obtain f sp Q where c: "checkFullyTyped bn P sub = (f, sp, Q)"
    by (cases "checkFullyTyped bn P sub")
  from Cons.prems e c have f: "f = False" by simp
  with c cft_success_state(1) have Q: "Q = P" by blast
  from Cons.prems have "\<forall>e\<in>set es. \<not> fst (checkFullyTyped bn P (getPattern e))" by simp
  from Cons.IH[OF this] e c f Q show ?case
    by (simp add: checked_elt_def typeElt_def)
qed

lemma cft_fields_first_fail:
  "\<forall>x\<in>set pre. \<not> fst (checkFullyTyped bn P (getPattern x)) \<Longrightarrow>
   fst (checkFullyTyped bn P (getPattern e)) \<Longrightarrow>
   checkFullyTyped_fields bn P (pre @ e # post) acc =
     (True, map (checked_elt bn P) pre @ checked_elt bn P e # post,
      acc @ map (typeElt bn) (map (checked_elt bn P) pre),
      snd (snd (checkFullyTyped bn P (getPattern e))))"
proof (induction pre arbitrary: acc)
  case Nil
  obtain sub i where e: "e = TuplePatternElt sub i" by (cases e)
  obtain f sp Q where c: "checkFullyTyped bn P sub = (f, sp, Q)"
    by (cases "checkFullyTyped bn P sub")
  from Nil e c show ?case by (simp add: checked_elt_def)
next
  case (Cons x pre)
  obtain sub i where x: "x = TuplePatternElt sub i" by (cases x)
  obtain f sp Q where c: "checkFullyTyped bn P sub = (f, sp, Q)"
    by (cases "checkFullyTyped bn P sub")
  from Cons.prems x c have f: "f = False" by simp
  with c cft_success_state(1) have Q: "Q = P" by blast
  from Cons.prems have "\<forall>x\<in>set pre. \<not> fst (checkFullyTyped bn P (getPattern x))" by simp
  from Cons.IH[OF this Cons.prems(2)] x c f Q show ?case
    by (simp add: checked_elt_def typeElt_def)
qed

text \<open>
  C4: on a \<open>Tuple\<close> node the checker visits the element patterns in order. If every
  element's check succeeds, the node gets the tuple type made of (type, bound name,
  initializer) of the checked elements, in order, and the check succeeds. If some
  element's check fails, the check fails at the first such element: the elements before
  it are checked, the ones after it are not visited, and the node's type is left as it was.
\<close>

theorem checkFullyTyped_Tuple:
  "((\<forall>e\<in>set elts. \<not> fst (checkFullyTyped bn P (getPattern e))) \<longrightarrow>
      checkFullyTyped bn P (TuplePattern elts t) =
        (False,
         TuplePattern (map (checked_elt bn P) elts)
           (TupleType (map (typeElt bn) (map (checked_elt bn P) elts))),
         P))
   \<and> (\<forall>pre e post.
        elts = pre @ e # post
        \<and> (\<forall>x\<in>set pre. \<not> fst (checkFullyTyped bn P (getPattern x)))
        \<and> fst (checkFullyTyped bn P (getPattern e)) \<longrightarrow>
        checkFullyTyped bn P (TuplePattern elts t) =
          (True,
           TuplePattern (map (checked_elt bn P) pre @ checked_elt bn P e # post) t,
           snd (snd (checkFullyTyped bn P (getPattern e)))))"
proof (intro conjI impI allI)
  assume "\<forall>e\<in>set elts. \<not> fst (checkFullyTyped bn P (getPattern e))"
  from cft_fields_all_ok[OF this, of "[]"] show
    "checkFullyTyped bn P (TuplePattern elts t) =
        (False,
         TuplePattern (map (checked_elt bn P) elts)
           (TupleType (map (typeElt bn) (map (checked_elt bn P) elts))),
         P)" by simp
next
  fix pre e post
  assume a: "elts = pre @ e # post
        \<and> (\<forall>x\<in>set pre. \<not> fst (checkFullyTyped bn P (getPattern x)))
        \<and> fst (checkFullyTyped bn P (getPattern e))"
  then have "checkFullyTyped_fields bn P (pre @ e # post) [] =
     (True, map (checked_elt bn P) pre @ checked_elt bn P e # post,
      [] @ map (typeElt bn) (map (checked_elt bn P) pre),
      snd (snd (checkFullyTyped bn P (getPattern e))))"
    using cft_fields_first_fail by blast
  with a show "checkFullyTyped bn P (TuplePattern elts t) =
          (True,
           TuplePattern (map (checked_elt bn P) pre @ checked_elt bn P e # post) t,
           snd (snd (checkFullyTyped bn P (getPattern e))))" by simp
qed

theorem checkFullyTyped_Tuple_witness:
  "\<not> fst (checkFullyTyped simple_getBoundName (lex_start []) (getPattern (ex_ab ! 0)))
   \<and> \<not> fst (checkFullyTyped simple_getBoundName (lex_start []) (getPattern (ex_ab ! 1)))
   \<and> checkFullyTyped simple_getBoundName (lex_start []) (TuplePattern ex_ab NullType) =
       (False,
        TuplePattern ex_ab
          (TupleType [TupleTypeElt (NamedType ''Int'') ''a'' None,
                      TupleTypeElt (NamedType ''String'') ''b'' None]),
        lex_start [])
   \<and> ex_ax = [ex_ax ! 0] @ (ex_ax ! 1) # [ex_ax ! 2]
   \<and> \<not> fst (checkFullyTyped simple_getBoundName (lex_start []) (getPattern (ex_ax ! 0)))
   \<and> fst (checkFullyTyped simple_getBoundName (lex_start []) (getPattern (ex_ax ! 1)))
   \<and> checkFullyTyped simple_getBoundName (lex_start []) (TuplePattern ex_ax NullType) =
       (True, TuplePattern ex_ax NullType,
        \<lparr>Toks = [],
         Diags = [DiagAtPattern (NamedPattern ''x'' NullType)
                    untyped_pattern_in_function_signature]\<rparr>)"
proof -
  have h1: "\<forall>e\<in>set ex_ab. \<not> fst (checkFullyTyped simple_getBoundName (lex_start []) (getPattern e))"
    by (simp add: ex_ab_def)
  have h2: "ex_ax = [ex_ax ! 0] @ (ex_ax ! 1) # [ex_ax ! 2]
   \<and> (\<forall>x\<in>set [ex_ax ! 0]. \<not> fst (checkFullyTyped simple_getBoundName (lex_start []) (getPattern x)))
   \<and> fst (checkFullyTyped simple_getBoundName (lex_start []) (getPattern (ex_ax ! 1)))"
    by (simp add: ex_ax_def)
  from checkFullyTyped_Tuple[of ex_ab simple_getBoundName "lex_start []" NullType] h1
  have r1: "checkFullyTyped simple_getBoundName (lex_start []) (TuplePattern ex_ab NullType) =
        (False,
         TuplePattern (map (checked_elt simple_getBoundName (lex_start [])) ex_ab)
           (TupleType (map (typeElt simple_getBoundName) (map (checked_elt simple_getBoundName (lex_start [])) ex_ab))),
         lex_start [])" by blast
  from checkFullyTyped_Tuple[of ex_ax simple_getBoundName "lex_start []" NullType] h2
  have r2: "checkFullyTyped simple_getBoundName (lex_start []) (TuplePattern ex_ax NullType) =
          (True,
           TuplePattern (map (checked_elt simple_getBoundName (lex_start [])) [ex_ax ! 0] 
              @ checked_elt simple_getBoundName (lex_start []) (ex_ax ! 1) # [ex_ax ! 2]) NullType,
           snd (snd (checkFullyTyped simple_getBoundName (lex_start []) (getPattern (ex_ax ! 1)))))"
    by blast
  have e1: "(TuplePattern (map (checked_elt simple_getBoundName (lex_start [])) ex_ab)
           (TupleType (map (typeElt simple_getBoundName) (map (checked_elt simple_getBoundName (lex_start [])) ex_ab)))) = 
          TuplePattern ex_ab
          (TupleType [TupleTypeElt (NamedType ''Int'') ''a'' None,
                      TupleTypeElt (NamedType ''String'') ''b'' None])"
    by (simp add: ex_ab_def checked_elt_def typeElt_def)
  have e2: "(True,
           TuplePattern (map (checked_elt simple_getBoundName (lex_start [])) [ex_ax ! 0] 
              @ checked_elt simple_getBoundName (lex_start []) (ex_ax ! 1) # [ex_ax ! 2]) NullType,
           snd (snd (checkFullyTyped simple_getBoundName (lex_start []) (getPattern (ex_ax ! 1)))))
     = (True, TuplePattern ex_ax NullType,
        \<lparr>Toks = [],
         Diags = [DiagAtPattern (NamedPattern ''x'' NullType)
                    untyped_pattern_in_function_signature]\<rparr>)"
    by (simp add: ex_ax_def checked_elt_def typeElt_def lex_start_def diagnose_def)
  have h3: "\<not> fst (checkFullyTyped simple_getBoundName (lex_start []) (getPattern (ex_ab ! 0)))
   \<and> \<not> fst (checkFullyTyped simple_getBoundName (lex_start []) (getPattern (ex_ab ! 1)))
   \<and> \<not> fst (checkFullyTyped simple_getBoundName (lex_start []) (getPattern (ex_ax ! 0)))"
    by (simp add: ex_ab_def ex_ax_def)
  show ?thesis using h2 h3 r1 r2 e1 e2 by simp
qed

text \<open>
  C7: the checker is idempotent. If a check succeeds and leaves the tree \<open>p'\<close>, a second
  check of \<open>p'\<close> succeeds, emits nothing and leaves \<open>p'\<close>, with every type in it, unchanged.
\<close>

theorem checkFullyTyped_idempotent:
  assumes "checkFullyTyped bn P p = (False, p', P')"
  shows "checkFullyTyped bn Q p' = (False, p', Q)"
  using assms by (rule cft_idem(1))

theorem checkFullyTyped_idempotent_witness:
  "checkFullyTyped simple_getBoundName (lex_start []) (TuplePattern ex_ab NullType) =
     (False,
      TuplePattern ex_ab
        (TupleType [TupleTypeElt (NamedType ''Int'') ''a'' None,
                    TupleTypeElt (NamedType ''String'') ''b'' None]),
      lex_start [])
   \<and> checkFullyTyped simple_getBoundName (lex_start [])
        (TuplePattern ex_ab
           (TupleType [TupleTypeElt (NamedType ''Int'') ''a'' None,
                       TupleTypeElt (NamedType ''String'') ''b'' None])) =
     (False,
      TuplePattern ex_ab
        (TupleType [TupleTypeElt (NamedType ''Int'') ''a'' None,
                    TupleTypeElt (NamedType ''String'') ''b'' None]),
      lex_start [])"
proof -
  have h: "checkFullyTyped simple_getBoundName (lex_start []) (TuplePattern ex_ab NullType) =
     (False,
      TuplePattern ex_ab
        (TupleType [TupleTypeElt (NamedType ''Int'') ''a'' None,
                    TupleTypeElt (NamedType ''String'') ''b'' None]),
      lex_start [])"
    by (simp add: ex_ab_def)
  from checkFullyTyped_idempotent[OF h, of "lex_start []"] h show ?thesis by simp
qed

text \<open>
  C9: on a \<open>Paren\<close> node the checker runs on the sub-pattern. If that fails, the check
  fails and the node keeps the type it had; if it succeeds, the check succeeds and the
  node's type is the type of the checked sub-pattern.
\<close>

theorem checkFullyTyped_Paren:
  assumes "checkFullyTyped bn P sub = (failed, sub', P')"
  shows "checkFullyTyped bn P (ParenPattern sub t) =
           (failed, ParenPattern sub' (if failed then t else getType sub'), P')"
  using assms by simp

theorem checkFullyTyped_Paren_witness:
  "checkFullyTyped simple_getBoundName (lex_start [])
       (TypedPattern (AnyPattern NullType) (NamedType ''Int'')) =
     (False, TypedPattern (AnyPattern NullType) (NamedType ''Int''), lex_start [])
   \<and> checkFullyTyped simple_getBoundName (lex_start [])
       (ParenPattern (TypedPattern (AnyPattern NullType) (NamedType ''Int'')) NullType) =
     (False,
      ParenPattern (TypedPattern (AnyPattern NullType) (NamedType ''Int'')) (NamedType ''Int''),
      lex_start [])
   \<and> checkFullyTyped simple_getBoundName (lex_start []) (AnyPattern NullType) =
     (True, AnyPattern NullType,
      diagnose (DiagAtPattern (AnyPattern NullType) untyped_pattern_in_function_signature)
        (lex_start []))
   \<and> checkFullyTyped simple_getBoundName (lex_start [])
       (ParenPattern (AnyPattern NullType) NullType) =
     (True, ParenPattern (AnyPattern NullType) NullType,
      diagnose (DiagAtPattern (AnyPattern NullType) untyped_pattern_in_function_signature)
        (lex_start []))"
proof -
  have h1: "checkFullyTyped simple_getBoundName (lex_start [])
       (TypedPattern (AnyPattern NullType) (NamedType ''Int'')) =
     (False, TypedPattern (AnyPattern NullType) (NamedType ''Int''), lex_start [])"
    by simp
  have h2: "checkFullyTyped simple_getBoundName (lex_start []) (AnyPattern NullType) =
     (True, AnyPattern NullType,
      diagnose (DiagAtPattern (AnyPattern NullType) untyped_pattern_in_function_signature)
        (lex_start []))"
    by simp
  from checkFullyTyped_Paren[OF h1, of NullType] checkFullyTyped_Paren[OF h2, of NullType] h1 h2
  show ?thesis by simp
qed

section \<open>Properties of the parsers\<close>

subsection \<open>Running a call\<close>

lemma bind_run_ret [simp]: "bind_run (ret a P) f = f a P"
  by (simp add: bind_run_def ret_def)

lemma bind_run_Some_Inr [simp]: "bind_run (Some (Inr (a, P))) f = f a P"
  by (simp add: bind_run_def)

lemma bind_run_None [simp]: "bind_run None f = None"
  by (simp add: bind_run_def)

lemma bind_run_Inl [simp]: "bind_run (Some (Inl e)) f = Some (Inl e)"
  by (simp add: bind_run_def)

lemma run_cases:
  obtains (fuel) "m = None" | (abort) e where "m = Some (Inl e)"
        | (returns) a P where "m = Some (Inr (a, P))"
  by (cases m) (auto, metis old.prod.exhaust sum.exhaust_sel)

lemma ret_neq [simp]: "ret a P \<noteq> Some (Inl e)" "ret a P \<noteq> None"
  "(ret a P = Some (Inr (b, Q))) = (a = b \<and> P = Q)"
  by (auto simp: ret_def)

declare parsePattern.simps [simp del] parsePatternAtom.simps [simp del]
  parsePatternTuple.simps(2) [simp del] parsePatternTuple_elts.simps(2) [simp del]

subsection \<open>The assertion of parsePatternTuple\<close>

text \<open>
  Inside the pattern parsers, \<open>parsePatternTuple\<close> is only called by \<open>parsePatternAtom\<close>,
  under a test of the current token; so no call of a pattern parser stops at the assertion
  when the outermost call does not.
\<close>

lemma atom_no_assert:
  assumes "\<And>P. Tok_is P tok_l_paren \<or> Tok_is P tok_l_paren_space \<Longrightarrow> parsePatternTuple ext n P \<noteq> Some (Inl e)"
  shows "parsePatternAtom ext n P \<noteq> Some (Inl e)"
  using assms[of P]
  by (simp add: parsePatternAtom.simps Tok_is_def Let_def split: tok.splits)

lemma pattern_no_assert:
  assumes "\<And>P. parsePatternAtom ext n P \<noteq> Some (Inl e)"
  shows "parsePattern ext n P \<noteq> Some (Inl e)"
proof (cases "parsePatternAtom ext n P" rule: run_cases)
  case fuel
  then show ?thesis by (simp add: parsePattern.simps)
next
  case (abort e')
  with assms show ?thesis by (cases e; cases e') simp
next
  case (returns a P1)
  then show ?thesis
    by (simp add: parsePattern.simps consumeIf_def split: prod.splits option.splits ParseResult.splits)
qed

lemma elts_no_assert:
  assumes "\<And>P. parsePattern ext n P \<noteq> Some (Inl e)"
    and "\<And>elts hs P. parsePatternTuple_elts ext n elts hs P \<noteq> Some (Inl e)"
  shows "parsePatternTuple_elts ext (Suc n) elts hs P \<noteq> Some (Inl e)"
proof (cases "parsePattern ext n P" rule: run_cases)
  case fuel
  then show ?thesis by (simp add: parsePatternTuple_elts.simps(2))
next
  case (abort e')
  with assms show ?thesis by (cases e; cases e') simp
next
  case (returns a P1)
  then show ?thesis using assms(2)
    by (simp add: parsePatternTuple_elts.simps(2) consumeIf_def
             split: prod.splits option.splits ParseResult.splits sum.splits)
qed

lemma tuple_no_assert:
  assumes "\<And>elts hs P. parsePatternTuple_elts ext n elts hs P \<noteq> Some (Inl e)"
    and "Tok_is P tok_l_paren \<or> Tok_is P tok_l_paren_space"
  shows "parsePatternTuple ext (Suc n) P \<noteq> Some (Inl e)"
proof (cases "Tok_is (consumeToken P) tok_r_paren")
  case True
  with assms(2) show ?thesis by (auto simp add: parsePatternTuple.simps(2) Let_def)
next
  case False
  show ?thesis
  proof (cases "parsePatternTuple_elts ext n [] False (consumeToken P)" rule: run_cases)
    case fuel
    with False assms(2) show ?thesis by (auto simp add: parsePatternTuple.simps(2) Let_def)
  next
    case (abort e')
    with assms(1) show ?thesis by (cases e; cases e') simp
  next
    case (returns a P1)
    with False assms(2) show ?thesis
      by (auto simp add: parsePatternTuple.simps(2) Let_def split: loop_exit.splits prod.splits)
  qed
qed

lemma no_assert_all:
  "(\<forall>P. parsePattern ext n P \<noteq> Some (Inl e))
   \<and> (\<forall>P. parsePatternAtom ext n P \<noteq> Some (Inl e))
   \<and> (\<forall>P. Tok_is P tok_l_paren \<or> Tok_is P tok_l_paren_space \<longrightarrow> parsePatternTuple ext n P \<noteq> Some (Inl e))
   \<and> (\<forall>elts hs P. parsePatternTuple_elts ext n elts hs P \<noteq> Some (Inl e))"
proof (induction n)
  case 0
  have t: "\<And>P. Tok_is P tok_l_paren \<or> Tok_is P tok_l_paren_space \<Longrightarrow> parsePatternTuple ext 0 P \<noteq> Some (Inl e)"
    by simp
  have a: "\<And>P. parsePatternAtom ext 0 P \<noteq> Some (Inl e)" using atom_no_assert[OF t] by blast
  have p: "\<And>P. parsePattern ext 0 P \<noteq> Some (Inl e)" using pattern_no_assert[OF a] by blast
  show ?case using t a p by simp
next
  case (Suc n)
  have l: "\<And>elts hs P. parsePatternTuple_elts ext (Suc n) elts hs P \<noteq> Some (Inl e)"
    using elts_no_assert[of ext n e] Suc by blast
  have t: "\<And>P. Tok_is P tok_l_paren \<or> Tok_is P tok_l_paren_space \<Longrightarrow> parsePatternTuple ext (Suc n) P \<noteq> Some (Inl e)"
    using tuple_no_assert[of ext n e] Suc by blast
  have a: "\<And>P. parsePatternAtom ext (Suc n) P \<noteq> Some (Inl e)" using atom_no_assert[OF t] by blast
  have p: "\<And>P. parsePattern ext (Suc n) P \<noteq> Some (Inl e)" using pattern_no_assert[OF a] by blast
  show ?case using l t a p by blast
qed

lemma clauses_no_assert:
  "Tok_is P tok_l_paren \<or> Tok_is P tok_l_paren_space \<Longrightarrow>
   parseFunctionSignature_clauses ext n params hs P \<noteq> Some (Inl e)"
proof (induction n arbitrary: params hs P)
  case 0
  then show ?case by simp
next
  case (Suc n)
  show ?case
  proof (cases "parsePatternTuple ext n P" rule: run_cases)
    case fuel
    then show ?thesis by simp
  next
    case (abort e')
    have "parsePatternTuple ext n P \<noteq> Some (Inl e')"
      using no_assert_all[of ext n e'] Suc.prems by blast
    with abort show ?thesis by simp
  next
    case (returns a P1)
    then show ?thesis using Suc.IH
      by (simp split: ParseResult.splits)
  qed
qed

text \<open>
  C10: \<open>parsePatternTuple\<close> asserts that the current token is an opening parenthesis: called
  on any other token it stops at the assertion, and so does \<open>parseFunctionSignature\<close>, whose
  first call of \<open>parsePatternTuple\<close> is unconditional. \<open>parseFunctionSignature\<close>, entered with
  the current token an opening parenthesis, never stops at the assertion, whatever the
  fuel: its first call sees that token and every later call is made under the loop
  condition.
\<close>

theorem parseFunctionSignature_assertion:
  "(\<not> (Tok_is P tok_l_paren \<or> Tok_is P tok_l_paren_space) \<longrightarrow>
      parsePatternTuple ext (Suc n) P = Some (Inl AssertionFailed)
      \<and> parseFunctionSignature ext (Suc (Suc n)) params ty P = Some (Inl AssertionFailed))
   \<and> (Tok_is P tok_l_paren \<or> Tok_is P tok_l_paren_space \<longrightarrow>
      parseFunctionSignature ext m params ty P \<noteq> Some (Inl AssertionFailed))"
proof (intro conjI impI)
  assume "\<not> (Tok_is P tok_l_paren \<or> Tok_is P tok_l_paren_space)"
  then show "parsePatternTuple ext (Suc n) P = Some (Inl AssertionFailed)"
    by (simp add: parsePatternTuple.simps(2))
next
  assume "\<not> (Tok_is P tok_l_paren \<or> Tok_is P tok_l_paren_space)"
  then have "parsePatternTuple ext (Suc n) P = Some (Inl AssertionFailed)"
    by (simp add: parsePatternTuple.simps(2))
  then show "parseFunctionSignature ext (Suc (Suc n)) params ty P = Some (Inl AssertionFailed)"
    by (simp add: parseFunctionSignature_def)
next
  assume a: "Tok_is P tok_l_paren \<or> Tok_is P tok_l_paren_space"
  show "parseFunctionSignature ext m params ty P \<noteq> Some (Inl AssertionFailed)"
  proof (cases "parseFunctionSignature_clauses ext m params False P" rule: run_cases)
    case fuel
    then show ?thesis by (simp add: parseFunctionSignature_def)
  next
    case (abort e')
    with clauses_no_assert[OF a] show ?thesis by blast
  next
    case (returns r P1)
    then show ?thesis
      by (simp add: parseFunctionSignature_def consumeIf_def
               split: prod.splits option.splits sum.splits)
  qed
qed

theorem parseFunctionSignature_assertion_witness:
  "\<not> (Tok_is (lex_start [mkTok tok_r_paren '')'']) tok_l_paren
       \<or> Tok_is (lex_start [mkTok tok_r_paren '')'']) tok_l_paren_space)
   \<and> parsePatternTuple simple_ext (Suc 0) (lex_start [mkTok tok_r_paren '')''])
       = Some (Inl AssertionFailed)
   \<and> parseFunctionSignature simple_ext (Suc (Suc 0)) [] NullType
        (lex_start [mkTok tok_r_paren '')''])
       = Some (Inl AssertionFailed)
   \<and> Tok_is (lex_start toks_x_y_Int) tok_l_paren
   \<and> parseFunctionSignature simple_ext 4 [] NullType (lex_start toks_x_y_Int)
       \<noteq> Some (Inl AssertionFailed)
   \<and> parseFunctionSignature simple_ext 4 [] NullType (lex_start toks_x_y_Int)
       \<noteq> None"
proof -
  have h1: "\<not> (Tok_is (lex_start [mkTok tok_r_paren '')'']) tok_l_paren
       \<or> Tok_is (lex_start [mkTok tok_r_paren '')'']) tok_l_paren_space)"
    by (simp add: Tok_is_def Tok_def lex_start_def mkTok_def)
  have h2: "Tok_is (lex_start toks_x_y_Int) tok_l_paren"
    by (simp add: Tok_is_def Tok_def lex_start_def mkTok_def toks_x_y_Int_def)
  have h3: "parseFunctionSignature simple_ext 4 [] NullType (lex_start toks_x_y_Int) \<noteq> None"
    by code_simp
  from parseFunctionSignature_assertion
         [where P = "lex_start [mkTok tok_r_paren '')'']" and ext = simple_ext and n = 0
            and params = "[]" and ty = NullType]
       parseFunctionSignature_assertion
         [where P = "lex_start toks_x_y_Int" and ext = simple_ext and m = 4 and params = "[]"
            and ty = NullType]
       h1 h2 h3
  show ?thesis by blast
qed

subsection \<open>Paren or Tuple\<close>





subsection \<open>parsePattern after a failed atom\<close>

text \<open>
  C8: in \<open>parsePattern\<close>, a hard failure of the atom is a hard failure of the pattern. After
  a soft failure of the atom with a colon following, the colon is consumed and the type is
  parsed: if the type parser succeeds the result is still the soft failure, and if the
  type parser fails the result is a hard failure.
\<close>

theorem parsePattern_failures:
  "(parsePatternAtom ext n P = Some (Inr (ParseError, P1)) \<longrightarrow>
      parsePattern ext n P = Some (Inr (ParseError, P1)))
   \<and> (parsePatternAtom ext n P = Some (Inr (SemaError, P1)) \<and> Tok_is P1 tok_colon \<longrightarrow>
        parsePattern ext n P =
          Some (Inr (if fst (parseType ext (consumeToken P1)) = None then ParseError
                     else SemaError,
                     snd (parseType ext (consumeToken P1)))))"
  by (auto simp add: parsePattern.simps ret_def consumeIf_def split: prod.splits option.splits)

theorem parsePattern_failures_counterexample:
  "parsePatternAtom simple_ext 2 (lex_start toks_xu_colon) =
     Some (Inr (SemaError,
       \<lparr>Toks = [mkTok tok_colon '':'', mkTok tok_l_paren ''(''],
        Diags = [DiagAtToken (mkTok tok_identifier ''u'') (other_diag ''unresolved identifier'')]\<rparr>))
   \<and> Tok_is \<lparr>Toks = [mkTok tok_colon '':'', mkTok tok_l_paren ''(''],
        Diags = [DiagAtToken (mkTok tok_identifier ''u'') (other_diag ''unresolved identifier'')]\<rparr>
        tok_colon
   \<and> parsePattern simple_ext 2 (lex_start toks_xu_colon) =
     Some (Inr (ParseError,
       \<lparr>Toks = [mkTok tok_l_paren ''(''],
        Diags = [DiagAtToken (mkTok tok_identifier ''u'') (other_diag ''unresolved identifier''),
                 DiagAtToken (mkTok tok_l_paren ''('') (other_diag ''expected type'')]\<rparr>))"
  by code_simp

theorem parsePattern_failures_witness:
  "parsePatternAtom simple_ext 0 (lex_start [mkTok tok_r_paren '')'']) =
     Some (Inr (ParseError,
       diagnose (DiagAtToken (mkTok tok_r_paren '')'') expected_pattern)
         (lex_start [mkTok tok_r_paren '')''])))
   \<and> parsePattern simple_ext 0 (lex_start [mkTok tok_r_paren '')'']) =
     Some (Inr (ParseError,
       diagnose (DiagAtToken (mkTok tok_r_paren '')'') expected_pattern)
         (lex_start [mkTok tok_r_paren '')''])))
   \<and> parsePatternAtom simple_ext 2 (lex_start toks_xu_colon_Int) =
     Some (Inr (SemaError,
       \<lparr>Toks = [mkTok tok_colon '':'', mkTok tok_identifier ''Int''],
        Diags = [DiagAtToken (mkTok tok_identifier ''u'') (other_diag ''unresolved identifier'')]\<rparr>))
   \<and> Tok_is \<lparr>Toks = [mkTok tok_colon '':'', mkTok tok_identifier ''Int''],
        Diags = [DiagAtToken (mkTok tok_identifier ''u'') (other_diag ''unresolved identifier'')]\<rparr>
        tok_colon
   \<and> parsePattern simple_ext 2 (lex_start toks_xu_colon_Int) =
     Some (Inr (SemaError,
       \<lparr>Toks = [],
        Diags = [DiagAtToken (mkTok tok_identifier ''u'') (other_diag ''unresolved identifier'')]\<rparr>))"
proof -
  have h1: "parsePatternAtom simple_ext 0 (lex_start [mkTok tok_r_paren '')'']) =
     Some (Inr (ParseError,
       diagnose (DiagAtToken (mkTok tok_r_paren '')'') expected_pattern)
         (lex_start [mkTok tok_r_paren '')''])))"
    by code_simp
  have h2: "parsePatternAtom simple_ext 2 (lex_start toks_xu_colon_Int) =
     Some (Inr (SemaError,
       \<lparr>Toks = [mkTok tok_colon '':'', mkTok tok_identifier ''Int''],
        Diags = [DiagAtToken (mkTok tok_identifier ''u'') (other_diag ''unresolved identifier'')]\<rparr>))"
    by code_simp
  have h3: "Tok_is \<lparr>Toks = [mkTok tok_colon '':'', mkTok tok_identifier ''Int''],
        Diags = [DiagAtToken (mkTok tok_identifier ''u'') (other_diag ''unresolved identifier'')]\<rparr>
        tok_colon"
    by code_simp
  have h4: "parseType simple_ext (consumeToken \<lparr>Toks = [mkTok tok_colon '':'', mkTok tok_identifier ''Int''],
        Diags = [DiagAtToken (mkTok tok_identifier ''u'') (other_diag ''unresolved identifier'')]\<rparr>)
     = (Some (NamedType ''Int''), \<lparr>Toks = [],
        Diags = [DiagAtToken (mkTok tok_identifier ''u'') (other_diag ''unresolved identifier'')]\<rparr>)"
    by code_simp
  from parsePattern_failures[where ext = simple_ext and n = 0
         and P = "lex_start [mkTok tok_r_paren '')'']"
         and ?P1.0 = "diagnose (DiagAtToken (mkTok tok_r_paren '')'') expected_pattern)
                        (lex_start [mkTok tok_r_paren '')''])"] h1
  have r1: "parsePattern simple_ext 0 (lex_start [mkTok tok_r_paren '')'']) =
     Some (Inr (ParseError,
       diagnose (DiagAtToken (mkTok tok_r_paren '')'') expected_pattern)
         (lex_start [mkTok tok_r_paren '')''])))"
    by blast
  from parsePattern_failures[where ext = simple_ext and n = 2
         and P = "lex_start toks_xu_colon_Int"
         and ?P1.0 = "\<lparr>Toks = [mkTok tok_colon '':'', mkTok tok_identifier ''Int''],
        Diags = [DiagAtToken (mkTok tok_identifier ''u'') (other_diag ''unresolved identifier'')]\<rparr>"]
       h2 h3
  have r2: "parsePattern simple_ext 2 (lex_start toks_xu_colon_Int) =
          Some (Inr (if fst (parseType simple_ext (consumeToken \<lparr>Toks = [mkTok tok_colon '':'', mkTok tok_identifier ''Int''],
        Diags = [DiagAtToken (mkTok tok_identifier ''u'') (other_diag ''unresolved identifier'')]\<rparr>)) = None then ParseError
                     else SemaError,
                     snd (parseType simple_ext (consumeToken \<lparr>Toks = [mkTok tok_colon '':'', mkTok tok_identifier ''Int''],
        Diags = [DiagAtToken (mkTok tok_identifier ''u'') (other_diag ''unresolved identifier'')]\<rparr>))))"
    by blast
  show ?thesis using h1 h2 h3 r1 r2[unfolded h4] by simp
qed

subsection \<open>Hard failures of parsePatternTuple\<close>

lemma skipUntil_through:
  assumes "Toks P = pre @ rp # post" "Kind rp = k" "\<forall>t\<in>set pre. Kind t \<noteq> k"
  shows "skipUntil k P = P\<lparr>Toks := post\<rparr>"
proof -
  from assms have "dropWhile (\<lambda>t. Kind t \<noteq> k) (Toks P) = rp # post"
    by (simp add: dropWhile_append3)
  then show ?thesis by (simp add: skipUntil_def)
qed

declare parsePatternTuple_elts_iterations.simps(2) [simp del]

lemma iterations_same_result:
  "(m, es, h, S) \<in> set (parsePatternTuple_elts_iterations ext n elts hs P) \<Longrightarrow>
   parsePatternTuple_elts ext n elts hs P = parsePatternTuple_elts ext m es h S"
proof (induction n arbitrary: elts hs P)
  case 0
  then show ?case by simp
next
  case (Suc n)
  show ?case
  proof (cases "(m, es, h, S) = (Suc n, elts, hs, P)")
    case True
    then show ?thesis by simp
  next
    case False
    have hd: "parsePatternTuple_elts_iterations ext (Suc n) elts hs P =
                (Suc n, elts, hs, P) # tl (parsePatternTuple_elts_iterations ext (Suc n) elts hs P)"
      by (simp only: parsePatternTuple_elts_iterations.simps(2) list.sel)
    from Suc.prems hd
    have "(m, es, h, S)
            \<in> set ((Suc n, elts, hs, P)
                     # tl (parsePatternTuple_elts_iterations ext (Suc n) elts hs P))"
      by metis
    with False
    have mem: "(m, es, h, S)
                 \<in> set (tl (parsePatternTuple_elts_iterations ext (Suc n) elts hs P))"
      by auto
    show ?thesis
    proof (cases "parsePattern ext n P" rule: run_cases)
      case fuel
      with mem show ?thesis by (simp add: parsePatternTuple_elts_iterations.simps(2))
    next
      case (abort e)
      with mem show ?thesis by (simp add: parsePatternTuple_elts_iterations.simps(2))
    next
      case (returns pattern P1)
      show ?thesis
      proof (cases "isParseError pattern")
        case True
        with returns mem show ?thesis by (simp add: parsePatternTuple_elts_iterations.simps(2))
      next
        case notPE: False
        define step where "step =
          (case consumeIf tok_equal P1 of
               (True, P2) \<Rightarrow>
                 (case parseExpr ext expected_initializer_expr P2 of
                    (ParseError, P3) \<Rightarrow> Inl (skipUntil tok_r_paren P3)
                  | (SemaError, P3) \<Rightarrow> Inr (None, True, P3)
                  | (Success e, P3) \<Rightarrow> Inr (Some e, hs, P3))
             | (False, P2) \<Rightarrow> Inr (None, hs, P2))"
        show ?thesis
        proof (cases step)
          case (Inl Q)
          with returns notPE mem show ?thesis
            by (simp add: parsePatternTuple_elts_iterations.simps(2) step_def)
        next
          case (Inr x)
          obtain init hs1 P3 where x: "x = (init, hs1, P3)" by (cases x)
          obtain elts2 hs2 where eh: "(case pattern of
                    Success p \<Rightarrow> (elts @ [TuplePatternElt p init], hs1)
                  | _ \<Rightarrow> (elts, True)) = (elts2, hs2)"
            by (cases "(case pattern of
                    Success p \<Rightarrow> (elts @ [TuplePatternElt p init], hs1)
                  | _ \<Rightarrow> (elts, True))")
          have u: "parsePatternTuple_elts ext (Suc n) elts hs P =
            (case consumeIf tok_comma P3 of
                    (True, P4) \<Rightarrow> parsePatternTuple_elts ext n elts2 hs2 P4
                  | (False, P4) \<Rightarrow> ret (LoopDone (elts2, hs2)) P4)"
            using returns notPE Inr x eh
            by (simp add: parsePatternTuple_elts.simps(2) step_def[symmetric])
          have v: "tl (parsePatternTuple_elts_iterations ext (Suc n) elts hs P) =
            (case consumeIf tok_comma P3 of
                    (True, P4) \<Rightarrow> parsePatternTuple_elts_iterations ext n elts2 hs2 P4
                  | (False, P4) \<Rightarrow> [])"
            using returns notPE Inr x eh
            by (simp add: parsePatternTuple_elts_iterations.simps(2) step_def[symmetric])
          show ?thesis
          proof (cases "Tok_is P3 tok_comma")
            case True
            with v mem have "(m, es, h, S)
                \<in> set (parsePatternTuple_elts_iterations ext n elts2 hs2 (consumeToken P3))"
              by (simp add: consumeIf_def)
            from Suc.IH[OF this] u True show ?thesis by (simp add: consumeIf_def)
          next
            case False
            with v mem show ?thesis by (simp add: consumeIf_def)
          qed
        qed
      qed
    qed
  qed
qed

lemma tuple_hard_failure_later:
  assumes lp: "Tok_is Q tok_l_paren \<or> Tok_is Q tok_l_paren_space"
    and nr: "\<not> Tok_is (consumeToken Q) tok_r_paren"
    and it: "(Suc m, es, h, S)
               \<in> set (parsePatternTuple_elts_iterations ext n [] False (consumeToken Q))"
    and rt: "parsePatternTuple_elts ext (Suc m) es h S = Some (Inr (ReturnTrue, S'))"
  shows "parsePatternTuple ext (Suc n) Q = Some (Inr (ParseError, S'))"
proof -
  from iterations_same_result[OF it] rt
  have "parsePatternTuple_elts ext n [] False (consumeToken Q) = Some (Inr (ReturnTrue, S'))"
    by simp
  with lp nr show ?thesis
    by (auto simp add: parsePatternTuple.simps(2) ret_def Let_def)
qed

text \<open>
  C6: in the element loop of \<open>parsePatternTuple\<close>, at any iteration, a hard failure of the
  element's pattern, or of the initializer that follows an \<open>=\<close>, leaves the loop by
  \<open>return true\<close> after \<open>skipUntil(tok::r_paren)\<close>; the tuple parse is then a parse error in
  that state. This holds for the first element and for every later one: whichever
  iteration of the loop the failure happens in, the whole tuple parse is that parse error.
  When the loop ends and the current token is not a closing parenthesis, the tuple parse
  is a parse error after the "expected ')'" diagnostic and the same skip. A parse error
  carries no value, so no element list is kept. \<open>skipUntil\<close>, as the spec describes it,
  drops the tokens up to and including the next closing parenthesis.
\<close>

theorem parsePatternTuple_hard_failure:
  "(parsePattern ext n P = Some (Inr (ParseError, P1)) \<longrightarrow>
      parsePatternTuple_elts ext (Suc n) elts hs P
        = Some (Inr (ReturnTrue, skipUntil tok_r_paren P1)))
   \<and> (parsePattern ext n P = Some (Inr (r, P1)) \<and> r \<noteq> ParseError \<and> Tok_is P1 tok_equal
        \<and> parseExpr ext expected_initializer_expr (consumeToken P1) = (ParseError, P2) \<longrightarrow>
      parsePatternTuple_elts ext (Suc n) elts hs P
        = Some (Inr (ReturnTrue, skipUntil tok_r_paren P2)))
   \<and> ((Tok_is Q tok_l_paren \<or> Tok_is Q tok_l_paren_space)
        \<and> \<not> Tok_is (consumeToken Q) tok_r_paren
        \<and> parsePatternTuple_elts ext n [] False (consumeToken Q) = Some (Inr (ReturnTrue, Q1)) \<longrightarrow>
      parsePatternTuple ext (Suc n) Q = Some (Inr (ParseError, Q1)))
   \<and> ((Tok_is Q tok_l_paren \<or> Tok_is Q tok_l_paren_space)
        \<and> \<not> Tok_is (consumeToken Q) tok_r_paren
        \<and> parsePatternTuple_elts ext n [] False (consumeToken Q)
            = Some (Inr (LoopDone (elts', hs'), Q2))
        \<and> \<not> Tok_is Q2 tok_r_paren \<longrightarrow>
      parsePatternTuple ext (Suc n) Q
        = Some (Inr (ParseError,
            skipUntil tok_r_paren
              (diagnose (DiagAtToken (Tok Q2) expected_rparen_tuple_pattern_list) Q2))))
   \<and> (Toks R = pre @ rp # post \<and> Kind rp = tok_r_paren
        \<and> (\<forall>t\<in>set pre. Kind t \<noteq> tok_r_paren) \<longrightarrow>
      skipUntil tok_r_paren R = R\<lparr>Toks := post\<rparr>)
   \<and> ((Tok_is T tok_l_paren \<or> Tok_is T tok_l_paren_space)
        \<and> \<not> Tok_is (consumeToken T) tok_r_paren
        \<and> (Suc m, es, h, S)
            \<in> set (parsePatternTuple_elts_iterations ext k [] False (consumeToken T))
        \<and> parsePattern ext m S = Some (Inr (ParseError, S1)) \<longrightarrow>
      parsePatternTuple ext (Suc k) T = Some (Inr (ParseError, skipUntil tok_r_paren S1)))
   \<and> ((Tok_is T tok_l_paren \<or> Tok_is T tok_l_paren_space)
        \<and> \<not> Tok_is (consumeToken T) tok_r_paren
        \<and> (Suc m, es, h, S)
            \<in> set (parsePatternTuple_elts_iterations ext k [] False (consumeToken T))
        \<and> parsePattern ext m S = Some (Inr (s, S1)) \<and> s \<noteq> ParseError
        \<and> Tok_is S1 tok_equal
        \<and> parseExpr ext expected_initializer_expr (consumeToken S1) = (ParseError, S2) \<longrightarrow>
      parsePatternTuple ext (Suc k) T = Some (Inr (ParseError, skipUntil tok_r_paren S2)))"
proof -
  have c1: "(parsePattern ext n P = Some (Inr (ParseError, P1)) \<longrightarrow>
      parsePatternTuple_elts ext (Suc n) elts hs P
        = Some (Inr (ReturnTrue, skipUntil tok_r_paren P1)))"
    by (simp add: parsePatternTuple_elts.simps(2) ret_def)
  have c2: "(parsePattern ext n P = Some (Inr (r, P1)) \<and> r \<noteq> ParseError \<and> Tok_is P1 tok_equal
        \<and> parseExpr ext expected_initializer_expr (consumeToken P1) = (ParseError, P2) \<longrightarrow>
      parsePatternTuple_elts ext (Suc n) elts hs P
        = Some (Inr (ReturnTrue, skipUntil tok_r_paren P2)))"
    by (cases r) (simp_all add: parsePatternTuple_elts.simps(2) ret_def consumeIf_def)
  have c3: "((Tok_is Q tok_l_paren \<or> Tok_is Q tok_l_paren_space)
        \<and> \<not> Tok_is (consumeToken Q) tok_r_paren
        \<and> parsePatternTuple_elts ext n [] False (consumeToken Q) = Some (Inr (ReturnTrue, Q1)) \<longrightarrow>
      parsePatternTuple ext (Suc n) Q = Some (Inr (ParseError, Q1)))"
    by (auto simp add: parsePatternTuple.simps(2) ret_def Let_def)
  have c4: "((Tok_is Q tok_l_paren \<or> Tok_is Q tok_l_paren_space)
        \<and> \<not> Tok_is (consumeToken Q) tok_r_paren
        \<and> parsePatternTuple_elts ext n [] False (consumeToken Q)
            = Some (Inr (LoopDone (elts', hs'), Q2))
        \<and> \<not> Tok_is Q2 tok_r_paren \<longrightarrow>
      parsePatternTuple ext (Suc n) Q
        = Some (Inr (ParseError,
            skipUntil tok_r_paren
              (diagnose (DiagAtToken (Tok Q2) expected_rparen_tuple_pattern_list) Q2))))"
    by (auto simp add: parsePatternTuple.simps(2) ret_def Let_def)
  have c5: "(Toks R = pre @ rp # post \<and> Kind rp = tok_r_paren
        \<and> (\<forall>t\<in>set pre. Kind t \<noteq> tok_r_paren) \<longrightarrow>
      skipUntil tok_r_paren R = R\<lparr>Toks := post\<rparr>)"
    using skipUntil_through by blast
  have c6: "(Tok_is T tok_l_paren \<or> Tok_is T tok_l_paren_space)
        \<and> \<not> Tok_is (consumeToken T) tok_r_paren
        \<and> (Suc m, es, h, S)
            \<in> set (parsePatternTuple_elts_iterations ext k [] False (consumeToken T))
        \<and> parsePattern ext m S = Some (Inr (ParseError, S1)) \<longrightarrow>
      parsePatternTuple ext (Suc k) T = Some (Inr (ParseError, skipUntil tok_r_paren S1))"
  proof
    assume a: "(Tok_is T tok_l_paren \<or> Tok_is T tok_l_paren_space)
        \<and> \<not> Tok_is (consumeToken T) tok_r_paren
        \<and> (Suc m, es, h, S)
            \<in> set (parsePatternTuple_elts_iterations ext k [] False (consumeToken T))
        \<and> parsePattern ext m S = Some (Inr (ParseError, S1))"
    then have "parsePatternTuple_elts ext (Suc m) es h S
                 = Some (Inr (ReturnTrue, skipUntil tok_r_paren S1))"
      by (simp add: parsePatternTuple_elts.simps(2) ret_def)
    with a tuple_hard_failure_later[of T m es h S ext k "skipUntil tok_r_paren S1"]
    show "parsePatternTuple ext (Suc k) T = Some (Inr (ParseError, skipUntil tok_r_paren S1))"
      by blast
  qed
  have c7: "(Tok_is T tok_l_paren \<or> Tok_is T tok_l_paren_space)
        \<and> \<not> Tok_is (consumeToken T) tok_r_paren
        \<and> (Suc m, es, h, S)
            \<in> set (parsePatternTuple_elts_iterations ext k [] False (consumeToken T))
        \<and> parsePattern ext m S = Some (Inr (s, S1)) \<and> s \<noteq> ParseError
        \<and> Tok_is S1 tok_equal
        \<and> parseExpr ext expected_initializer_expr (consumeToken S1) = (ParseError, S2) \<longrightarrow>
      parsePatternTuple ext (Suc k) T = Some (Inr (ParseError, skipUntil tok_r_paren S2))"
  proof
    assume a: "(Tok_is T tok_l_paren \<or> Tok_is T tok_l_paren_space)
        \<and> \<not> Tok_is (consumeToken T) tok_r_paren
        \<and> (Suc m, es, h, S)
            \<in> set (parsePatternTuple_elts_iterations ext k [] False (consumeToken T))
        \<and> parsePattern ext m S = Some (Inr (s, S1)) \<and> s \<noteq> ParseError
        \<and> Tok_is S1 tok_equal
        \<and> parseExpr ext expected_initializer_expr (consumeToken S1) = (ParseError, S2)"
    then have "parsePatternTuple_elts ext (Suc m) es h S
                 = Some (Inr (ReturnTrue, skipUntil tok_r_paren S2))"
      by (cases s) (simp_all add: parsePatternTuple_elts.simps(2) ret_def consumeIf_def)
    with a tuple_hard_failure_later[of T m es h S ext k "skipUntil tok_r_paren S2"]
    show "parsePatternTuple ext (Suc k) T = Some (Inr (ParseError, skipUntil tok_r_paren S2))"
      by blast
  qed
  from c1 c2 c3 c4 c5 c6 c7 show ?thesis by (intro conjI)
qed

theorem parsePatternTuple_hard_failure_witness:
  "parsePattern simple_ext 0 (consumeToken (lex_start toks_comma_first))
     = Some (Inr (ParseError,
         \<lparr>Toks = [mkTok tok_comma '','', mkTok tok_r_paren '')''],
          Diags = [DiagAtToken (mkTok tok_comma '','') expected_pattern]\<rparr>))
   \<and> parsePatternTuple_elts simple_ext (Suc 0) [] False (consumeToken (lex_start toks_comma_first))
     = Some (Inr (ReturnTrue,
         \<lparr>Toks = [], Diags = [DiagAtToken (mkTok tok_comma '','') expected_pattern]\<rparr>))
   \<and> parsePatternTuple simple_ext (Suc (Suc 0)) (lex_start toks_comma_first)
     = Some (Inr (ParseError,
         \<lparr>Toks = [], Diags = [DiagAtToken (mkTok tok_comma '','') expected_pattern]\<rparr>))
   \<and> parsePattern simple_ext 0 (consumeToken (lex_start toks_bad_init))
     = Some (Inr (Success (NamedPattern ''x'' NullType),
         lex_start [mkTok tok_equal ''='', mkTok tok_r_paren '')'',
                    mkTok tok_identifier ''y'', mkTok tok_r_paren '')'']))
   \<and> parseExpr simple_ext expected_initializer_expr
        (lex_start [mkTok tok_r_paren '')'', mkTok tok_identifier ''y'', mkTok tok_r_paren '')''])
     = (ParseError,
         \<lparr>Toks = [mkTok tok_r_paren '')'', mkTok tok_identifier ''y'', mkTok tok_r_paren '')''],
          Diags = [DiagAtToken (mkTok tok_r_paren '')'') expected_initializer_expr]\<rparr>)
   \<and> parsePatternTuple_elts simple_ext (Suc 0) [] False (consumeToken (lex_start toks_bad_init))
     = Some (Inr (ReturnTrue,
         \<lparr>Toks = [mkTok tok_identifier ''y'', mkTok tok_r_paren '')''],
          Diags = [DiagAtToken (mkTok tok_r_paren '')'') expected_initializer_expr]\<rparr>))
   \<and> parsePatternTuple_elts simple_ext (Suc 0) [] False (consumeToken (lex_start toks_unclosed))
     = Some (Inr (LoopDone
          ([TuplePatternElt (TypedPattern (NamedPattern ''x'' NullType) (NamedType ''Int'')) None],
           False), lex_start []))
   \<and> parsePatternTuple simple_ext (Suc (Suc 0)) (lex_start toks_unclosed)
     = Some (Inr (ParseError,
         \<lparr>Toks = [],
          Diags = [DiagAtToken \<lparr>Kind = tok_eof, Text = []\<rparr>
                     expected_rparen_tuple_pattern_list]\<rparr>))
   \<and> (Suc 0, [TuplePatternElt (NamedPattern ''a'' NullType) None], False,
        lex_start [mkTok tok_comma '','', mkTok tok_r_paren '')''])
       \<in> set (parsePatternTuple_elts_iterations simple_ext 2 [] False
                (consumeToken (lex_start toks_a_comma_comma)))
   \<and> parsePattern simple_ext 0 (lex_start [mkTok tok_comma '','', mkTok tok_r_paren '')''])
     = Some (Inr (ParseError,
         \<lparr>Toks = [mkTok tok_comma '','', mkTok tok_r_paren '')''],
          Diags = [DiagAtToken (mkTok tok_comma '','') expected_pattern]\<rparr>))
   \<and> parsePatternTuple simple_ext (Suc 2) (lex_start toks_a_comma_comma)
     = Some (Inr (ParseError,
         \<lparr>Toks = [], Diags = [DiagAtToken (mkTok tok_comma '','') expected_pattern]\<rparr>))
   \<and> (Suc 0, [TuplePatternElt (NamedPattern ''a'' NullType) None], False,
        lex_start [mkTok tok_identifier ''x'', mkTok tok_equal ''='', mkTok tok_r_paren '')''])
       \<in> set (parsePatternTuple_elts_iterations simple_ext 2 [] False
                (consumeToken (lex_start toks_a_x_bad_init)))
   \<and> parsePattern simple_ext 0
        (lex_start [mkTok tok_identifier ''x'', mkTok tok_equal ''='', mkTok tok_r_paren '')''])
     = Some (Inr (Success (NamedPattern ''x'' NullType),
         lex_start [mkTok tok_equal ''='', mkTok tok_r_paren '')'']))
   \<and> parseExpr simple_ext expected_initializer_expr (lex_start [mkTok tok_r_paren '')''])
     = (ParseError,
         \<lparr>Toks = [mkTok tok_r_paren '')''],
          Diags = [DiagAtToken (mkTok tok_r_paren '')'') expected_initializer_expr]\<rparr>)
   \<and> parsePatternTuple simple_ext (Suc 2) (lex_start toks_a_x_bad_init)
     = Some (Inr (ParseError,
         \<lparr>Toks = [],
          Diags = [DiagAtToken (mkTok tok_r_paren '')'') expected_initializer_expr]\<rparr>))"
proof -
  let ?Pa = "consumeToken (lex_start toks_comma_first)"
  let ?Pa1 = "\<lparr>Toks = [mkTok tok_comma '','', mkTok tok_r_paren '')''],
          Diags = [DiagAtToken (mkTok tok_comma '','') expected_pattern]\<rparr>"
  let ?Pa2 = "\<lparr>Toks = [], Diags = [DiagAtToken (mkTok tok_comma '','') expected_pattern]\<rparr>"
  let ?Pb = "consumeToken (lex_start toks_bad_init)"
  let ?Pb1 = "lex_start [mkTok tok_equal ''='', mkTok tok_r_paren '')'',
                    mkTok tok_identifier ''y'', mkTok tok_r_paren '')'']"
  let ?Pb2 = "\<lparr>Toks = [mkTok tok_r_paren '')'', mkTok tok_identifier ''y'', mkTok tok_r_paren '')''],
          Diags = [DiagAtToken (mkTok tok_r_paren '')'') expected_initializer_expr]\<rparr>"
  let ?es = "[TuplePatternElt (TypedPattern (NamedPattern ''x'' NullType) (NamedType ''Int'')) None]"
  have a1: "parsePattern simple_ext 0 ?Pa = Some (Inr (ParseError, ?Pa1))"
    by code_simp
  have a2: "skipUntil tok_r_paren ?Pa1 = ?Pa2"
    using parsePatternTuple_hard_failure
      [where R = ?Pa1 and pre = "[mkTok tok_comma '','']" and rp = "mkTok tok_r_paren '')''"
         and post = "[]"]
    by (simp add: mkTok_def)
  have a3: "parsePatternTuple_elts simple_ext (Suc 0) [] False ?Pa = Some (Inr (ReturnTrue, ?Pa2))"
    using parsePatternTuple_hard_failure
      [where ext = simple_ext and n = 0 and P = ?Pa and ?P1.0 = ?Pa1 and elts = "[]" and hs = False]
      a1 a2 by simp
  have a4: "Tok_is (lex_start toks_comma_first) tok_l_paren
        \<and> \<not> Tok_is (consumeToken (lex_start toks_comma_first)) tok_r_paren"
    by code_simp
  have a5: "parsePatternTuple simple_ext (Suc (Suc 0)) (lex_start toks_comma_first)
     = Some (Inr (ParseError, ?Pa2))"
    using parsePatternTuple_hard_failure
      [where ext = simple_ext and n = "Suc 0" and Q = "lex_start toks_comma_first" and ?Q1.0 = ?Pa2]
      a3 a4 by simp
  have b1: "parsePattern simple_ext 0 ?Pb = Some (Inr (Success (NamedPattern ''x'' NullType), ?Pb1))"
    by code_simp
  have b2: "Tok_is ?Pb1 tok_equal" by code_simp
  have b3: "parseExpr simple_ext expected_initializer_expr (consumeToken ?Pb1) = (ParseError, ?Pb2)"
    by code_simp
  have b3': "consumeToken ?Pb1 
      = lex_start [mkTok tok_r_paren '')'', mkTok tok_identifier ''y'', mkTok tok_r_paren '')'']"
    by code_simp
  have b4: "skipUntil tok_r_paren ?Pb2
      = \<lparr>Toks = [mkTok tok_identifier ''y'', mkTok tok_r_paren '')''],
          Diags = [DiagAtToken (mkTok tok_r_paren '')'') expected_initializer_expr]\<rparr>"
    by code_simp
  have b5: "parsePatternTuple_elts simple_ext (Suc 0) [] False ?Pb
     = Some (Inr (ReturnTrue, skipUntil tok_r_paren ?Pb2))"
    using parsePatternTuple_hard_failure
      [where ext = simple_ext and n = 0 and P = ?Pb and ?P1.0 = ?Pb1 and ?P2.0 = ?Pb2
         and r = "Success (NamedPattern ''x'' NullType)" and elts = "[]" and hs = False]
      b1 b2 b3 by simp
  have d1: "parsePatternTuple_elts simple_ext (Suc 0) [] False (consumeToken (lex_start toks_unclosed))
     = Some (Inr (LoopDone (?es, False), lex_start []))"
    by code_simp
  have d2: "Tok_is (lex_start toks_unclosed) tok_l_paren
        \<and> \<not> Tok_is (consumeToken (lex_start toks_unclosed)) tok_r_paren
        \<and> \<not> Tok_is (lex_start []) tok_r_paren"
    by code_simp
  have d3: "skipUntil tok_r_paren
              (diagnose (DiagAtToken (Tok (lex_start [])) expected_rparen_tuple_pattern_list)
                 (lex_start []))
      = \<lparr>Toks = [],
          Diags = [DiagAtToken \<lparr>Kind = tok_eof, Text = []\<rparr>
                     expected_rparen_tuple_pattern_list]\<rparr>"
    by code_simp
  have d4: "parsePatternTuple simple_ext (Suc (Suc 0)) (lex_start toks_unclosed)
     = Some (Inr (ParseError,
          skipUntil tok_r_paren
              (diagnose (DiagAtToken (Tok (lex_start [])) expected_rparen_tuple_pattern_list)
                 (lex_start []))))"
    using parsePatternTuple_hard_failure
      [where ext = simple_ext and n = "Suc 0" and Q = "lex_start toks_unclosed"
         and ?Q2.0 = "lex_start []" and elts' = ?es and hs' = False]
      d1 d2 by simp
  let ?a = "TuplePatternElt (NamedPattern ''a'' NullType) None"
  let ?Te = "lex_start toks_a_comma_comma"
  let ?Se = "lex_start [mkTok tok_comma '','', mkTok tok_r_paren '')'']"
  have e1: "Tok_is ?Te tok_l_paren \<and> \<not> Tok_is (consumeToken ?Te) tok_r_paren"
    by code_simp
  have e2: "(Suc 0, [?a], False, ?Se)
       \<in> set (parsePatternTuple_elts_iterations simple_ext 2 [] False (consumeToken ?Te))"
    by code_simp
  have e3: "parsePattern simple_ext 0 ?Se = Some (Inr (ParseError, ?Pa1))"
    by code_simp
  have e4: "parsePatternTuple simple_ext (Suc 2) ?Te
              = Some (Inr (ParseError, skipUntil tok_r_paren ?Pa1))"
    using parsePatternTuple_hard_failure
      [where ext = simple_ext and k = 2 and T = ?Te and m = 0 and es = "[?a]" and h = False
         and S = ?Se and ?S1.0 = ?Pa1]
      e1 e2 e3 by blast
  let ?Tf = "lex_start toks_a_x_bad_init"
  let ?Sf = "lex_start [mkTok tok_identifier ''x'', mkTok tok_equal ''='', mkTok tok_r_paren '')'']"
  let ?Sf1 = "lex_start [mkTok tok_equal ''='', mkTok tok_r_paren '')'']"
  let ?Sf2 = "\<lparr>Toks = [mkTok tok_r_paren '')''],
          Diags = [DiagAtToken (mkTok tok_r_paren '')'') expected_initializer_expr]\<rparr>"
  have f1: "Tok_is ?Tf tok_l_paren \<and> \<not> Tok_is (consumeToken ?Tf) tok_r_paren"
    by code_simp
  have f2: "(Suc 0, [?a], False, ?Sf)
       \<in> set (parsePatternTuple_elts_iterations simple_ext 2 [] False (consumeToken ?Tf))"
    by code_simp
  have f3: "parsePattern simple_ext 0 ?Sf
              = Some (Inr (Success (NamedPattern ''x'' NullType), ?Sf1))"
    by code_simp
  have f4: "Tok_is ?Sf1 tok_equal
     \<and> parseExpr simple_ext expected_initializer_expr (consumeToken ?Sf1) = (ParseError, ?Sf2)
     \<and> Success (NamedPattern ''x'' NullType) \<noteq> ParseError"
    by code_simp
  have f4': "parseExpr simple_ext expected_initializer_expr (lex_start [mkTok tok_r_paren '')''])
               = (ParseError, ?Sf2)"
    by code_simp
  have f5: "skipUntil tok_r_paren ?Sf2
      = \<lparr>Toks = [],
          Diags = [DiagAtToken (mkTok tok_r_paren '')'') expected_initializer_expr]\<rparr>"
    by code_simp
  have f6: "parsePatternTuple simple_ext (Suc 2) ?Tf
              = Some (Inr (ParseError, skipUntil tok_r_paren ?Sf2))"
    using parsePatternTuple_hard_failure
      [where ext = simple_ext and k = 2 and T = ?Tf and m = 0 and es = "[?a]" and h = False
         and S = ?Sf and ?S1.0 = ?Sf1 and ?S2.0 = ?Sf2
         and s = "Success (NamedPattern ''x'' NullType)"]
      f1 f2 f3 f4 by blast
  have old: "parsePattern simple_ext 0 (consumeToken (lex_start toks_comma_first))
     = Some (Inr (ParseError, ?Pa1))
   \<and> parsePatternTuple_elts simple_ext (Suc 0) [] False (consumeToken (lex_start toks_comma_first))
     = Some (Inr (ReturnTrue, ?Pa2))
   \<and> parsePatternTuple simple_ext (Suc (Suc 0)) (lex_start toks_comma_first)
     = Some (Inr (ParseError, ?Pa2))
   \<and> parsePattern simple_ext 0 (consumeToken (lex_start toks_bad_init))
     = Some (Inr (Success (NamedPattern ''x'' NullType), ?Pb1))
   \<and> parseExpr simple_ext expected_initializer_expr
        (lex_start [mkTok tok_r_paren '')'', mkTok tok_identifier ''y'', mkTok tok_r_paren '')''])
     = (ParseError, ?Pb2)
   \<and> parsePatternTuple_elts simple_ext (Suc 0) [] False (consumeToken (lex_start toks_bad_init))
     = Some (Inr (ReturnTrue,
         \<lparr>Toks = [mkTok tok_identifier ''y'', mkTok tok_r_paren '')''],
          Diags = [DiagAtToken (mkTok tok_r_paren '')'') expected_initializer_expr]\<rparr>))
   \<and> parsePatternTuple_elts simple_ext (Suc 0) [] False (consumeToken (lex_start toks_unclosed))
     = Some (Inr (LoopDone (?es, False), lex_start []))
   \<and> parsePatternTuple simple_ext (Suc (Suc 0)) (lex_start toks_unclosed)
     = Some (Inr (ParseError,
         \<lparr>Toks = [],
          Diags = [DiagAtToken \<lparr>Kind = tok_eof, Text = []\<rparr>
                     expected_rparen_tuple_pattern_list]\<rparr>))"
    using a1 a3 a5 b1 b3[unfolded b3'] b5[unfolded b4] d1 d4[unfolded d3] by simp
  have new: "(Suc 0, [?a], False, ?Se)
       \<in> set (parsePatternTuple_elts_iterations simple_ext 2 [] False (consumeToken ?Te))
   \<and> parsePattern simple_ext 0 ?Se = Some (Inr (ParseError, ?Pa1))
   \<and> parsePatternTuple simple_ext (Suc 2) ?Te = Some (Inr (ParseError, ?Pa2))
   \<and> (Suc 0, [?a], False, ?Sf)
       \<in> set (parsePatternTuple_elts_iterations simple_ext 2 [] False (consumeToken ?Tf))
   \<and> parsePattern simple_ext 0 ?Sf
       = Some (Inr (Success (NamedPattern ''x'' NullType), ?Sf1))
   \<and> parseExpr simple_ext expected_initializer_expr (lex_start [mkTok tok_r_paren '')''])
       = (ParseError, ?Sf2)
   \<and> parsePatternTuple simple_ext (Suc 2) ?Tf
       = Some (Inr (ParseError,
         \<lparr>Toks = [],
          Diags = [DiagAtToken (mkTok tok_r_paren '')'') expected_initializer_expr]\<rparr>))"
    using e2 e3 e4[unfolded a2] f2 f3 f4' f6[unfolded f5] by (intro conjI)
  from old new show ?thesis by simp
qed

subsection \<open>Soft failures in the element loop\<close>

lemma elts_grow:
  "parsePatternTuple_elts ext n elts hs P = Some (Inr (LoopDone (elts', hs'), P')) \<Longrightarrow>
   (hs \<longrightarrow> hs') \<and> (\<exists>more. elts' = elts @ more)"
proof (induction n arbitrary: elts hs P)
  case 0
  then show ?case by simp
next
  case (Suc n)
  show ?case
  proof (cases "parsePattern ext n P" rule: run_cases)
    case fuel
    with Suc.prems show ?thesis by (simp add: parsePatternTuple_elts.simps(2))
  next
    case (abort e)
    with Suc.prems show ?thesis by (simp add: parsePatternTuple_elts.simps(2))
  next
    case (returns pattern P1)
    show ?thesis
    proof (cases "isParseError pattern")
      case True
      with returns Suc.prems show ?thesis by (simp add: parsePatternTuple_elts.simps(2))
    next
      case False
      define step where "step =
        (case consumeIf tok_equal P1 of
               (True, P2) \<Rightarrow>
                 (case parseExpr ext expected_initializer_expr P2 of
                    (ParseError, P3) \<Rightarrow> Inl (skipUntil tok_r_paren P3)
                  | (SemaError, P3) \<Rightarrow> Inr (None, True, P3)
                  | (Success e, P3) \<Rightarrow> Inr (Some e, hs, P3))
             | (False, P2) \<Rightarrow> Inr (None, hs, P2))"
      show ?thesis
      proof (cases step)
        case (Inl Q)
        with returns False Suc.prems show ?thesis
          by (simp add: parsePatternTuple_elts.simps(2) step_def)
      next
        case (Inr x)
        obtain init hs1 P3 where x: "x = (init, hs1, P3)" by (cases x)
        from Inr x have hs1: "hs \<longrightarrow> hs1"
          by (auto simp add: step_def consumeIf_def split: if_splits prod.splits ParseResult.splits)
        define elts2 where "elts2 = (case pattern of Success p \<Rightarrow> elts @ [TuplePatternElt p init] | _ \<Rightarrow> elts)"
        define hs2 where "hs2 = (case pattern of Success p \<Rightarrow> hs1 | _ \<Rightarrow> True)"
        have eh: "(case pattern of
                    Success p \<Rightarrow> (elts @ [TuplePatternElt p init], hs1)
                  | _ \<Rightarrow> (elts, True)) = (elts2, hs2)"
          by (simp add: elts2_def hs2_def split: ParseResult.splits)
        have g: "(hs \<longrightarrow> hs2) \<and> (\<exists>more. elts2 = elts @ more)"
          using hs1 by (auto simp add: elts2_def hs2_def split: ParseResult.splits)
        have u: "parsePatternTuple_elts ext (Suc n) elts hs P =
            (case consumeIf tok_comma P3 of
                    (True, P4) \<Rightarrow> parsePatternTuple_elts ext n elts2 hs2 P4
                  | (False, P4) \<Rightarrow> ret (LoopDone (elts2, hs2)) P4)"
          using returns False Inr x eh
          by (simp add: parsePatternTuple_elts.simps(2) step_def[symmetric])
        show ?thesis
        proof (cases "Tok_is P3 tok_comma")
          case True
          with u Suc.prems have "parsePatternTuple_elts ext n elts2 hs2 (consumeToken P3)
             = Some (Inr (LoopDone (elts', hs'), P'))" by (simp add: consumeIf_def)
          from Suc.IH[OF this] g show ?thesis by auto
        next
          case False
          with u Suc.prems have "elts' = elts2" "hs' = hs2" by (auto simp add: consumeIf_def ret_def)
          with g show ?thesis by simp
        qed
      qed
    qed
  qed
qed



text \<open>
  C3: a soft failure of an element's pattern or of its initializer does not leave the
  element loop: \<open>hasSemaError\<close> is set and the loop goes on to the next comma-separated
  element. When the pattern has parsed and only the initializer is a soft failure, the
  element is appended without an initializer. When the pattern itself is a soft failure,
  no element is appended for it. Once \<open>hasSemaError\<close> is set it stays set until the loop
  ends, and the elements collected so far are kept.
\<close>

theorem parsePatternTuple_elts_soft_failure:
  "(parsePattern ext n P = Some (Inr (SemaError, P1)) \<and> \<not> Tok_is P1 tok_equal \<longrightarrow>
      parsePatternTuple_elts ext (Suc n) elts hs P =
        (if Tok_is P1 tok_comma then parsePatternTuple_elts ext n elts True (consumeToken P1)
         else Some (Inr (LoopDone (elts, True), P1))))
   \<and> (parsePattern ext n P = Some (Inr (SemaError, P1)) \<and> Tok_is P1 tok_equal
        \<and> parseExpr ext expected_initializer_expr (consumeToken P1) = (initR, P3)
        \<and> initR \<noteq> ParseError \<longrightarrow>
      parsePatternTuple_elts ext (Suc n) elts hs P =
        (if Tok_is P3 tok_comma then parsePatternTuple_elts ext n elts True (consumeToken P3)
         else Some (Inr (LoopDone (elts, True), P3))))
   \<and> (parsePattern ext n P = Some (Inr (Success p, P1)) \<and> Tok_is P1 tok_equal
        \<and> parseExpr ext expected_initializer_expr (consumeToken P1) = (SemaError, P3) \<longrightarrow>
      parsePatternTuple_elts ext (Suc n) elts hs P =
        (if Tok_is P3 tok_comma
         then parsePatternTuple_elts ext n (elts @ [TuplePatternElt p None]) True (consumeToken P3)
         else Some (Inr (LoopDone (elts @ [TuplePatternElt p None], True), P3))))
   \<and> (parsePatternTuple_elts ext m elts True Q = Some (Inr (LoopDone (elts', hs'), Q')) \<longrightarrow>
        hs' \<and> (\<exists>more. elts' = elts @ more))"
proof -
  have c1: "parsePattern ext n P = Some (Inr (SemaError, P1)) \<and> \<not> Tok_is P1 tok_equal \<longrightarrow>
      parsePatternTuple_elts ext (Suc n) elts hs P =
        (if Tok_is P1 tok_comma then parsePatternTuple_elts ext n elts True (consumeToken P1)
         else Some (Inr (LoopDone (elts, True), P1)))"
    by (simp add: parsePatternTuple_elts.simps(2) consumeIf_def ret_def)
  have c2: "parsePattern ext n P = Some (Inr (SemaError, P1)) \<and> Tok_is P1 tok_equal
        \<and> parseExpr ext expected_initializer_expr (consumeToken P1) = (initR, P3)
        \<and> initR \<noteq> ParseError \<longrightarrow>
      parsePatternTuple_elts ext (Suc n) elts hs P =
        (if Tok_is P3 tok_comma then parsePatternTuple_elts ext n elts True (consumeToken P3)
         else Some (Inr (LoopDone (elts, True), P3)))"
    by (cases initR) (simp_all add: parsePatternTuple_elts.simps(2) consumeIf_def ret_def)
  have c3: "parsePattern ext n P = Some (Inr (Success p, P1)) \<and> Tok_is P1 tok_equal
        \<and> parseExpr ext expected_initializer_expr (consumeToken P1) = (SemaError, P3) \<longrightarrow>
      parsePatternTuple_elts ext (Suc n) elts hs P =
        (if Tok_is P3 tok_comma
         then parsePatternTuple_elts ext n (elts @ [TuplePatternElt p None]) True (consumeToken P3)
         else Some (Inr (LoopDone (elts @ [TuplePatternElt p None], True), P3)))"
    by (simp add: parsePatternTuple_elts.simps(2) consumeIf_def ret_def)
  have c4: "parsePatternTuple_elts ext m elts True Q = Some (Inr (LoopDone (elts', hs'), Q')) \<longrightarrow>
        hs' \<and> (\<exists>more. elts' = elts @ more)"
    using elts_grow[of ext m elts True Q elts' hs' Q'] by blast
  from c1 c2 c3 c4 show ?thesis by (intro conjI)
qed

theorem parsePatternTuple_elts_soft_failure_counterexample:
  "parsePattern simple_ext 3 (consumeToken (lex_start toks_nested_xu_y))
     = Some (Inr (SemaError,
         \<lparr>Toks = [mkTok tok_comma '','', mkTok tok_identifier ''y'', mkTok tok_r_paren '')''],
          Diags = [DiagAtToken (mkTok tok_identifier ''u'')
                     (other_diag ''unresolved identifier'')]\<rparr>))
   \<and> parsePatternTuple_elts simple_ext 4 [] False (consumeToken (lex_start toks_nested_xu_y))
     = Some (Inr (LoopDone ([TuplePatternElt (NamedPattern ''y'' NullType) None], True),
         \<lparr>Toks = [mkTok tok_r_paren '')''],
          Diags = [DiagAtToken (mkTok tok_identifier ''u'')
                     (other_diag ''unresolved identifier'')]\<rparr>))"
  by code_simp


theorem parsePatternTuple_elts_soft_failure_witness:
  "parsePattern simple_ext 3 (consumeToken (lex_start toks_nested_xu_y))
     = Some (Inr (SemaError,
         \<lparr>Toks = [mkTok tok_comma '','', mkTok tok_identifier ''y'', mkTok tok_r_paren '')''],
          Diags = [DiagAtToken (mkTok tok_identifier ''u'')
                     (other_diag ''unresolved identifier'')]\<rparr>))
   \<and> parsePatternTuple_elts simple_ext (Suc 3) [] False (consumeToken (lex_start toks_nested_xu_y))
     = parsePatternTuple_elts simple_ext 3 [] True
         \<lparr>Toks = [mkTok tok_identifier ''y'', mkTok tok_r_paren '')''],
          Diags = [DiagAtToken (mkTok tok_identifier ''u'')
                     (other_diag ''unresolved identifier'')]\<rparr>
   \<and> parsePatternTuple_elts simple_ext 3 [] True
         \<lparr>Toks = [mkTok tok_identifier ''y'', mkTok tok_r_paren '')''],
          Diags = [DiagAtToken (mkTok tok_identifier ''u'')
                     (other_diag ''unresolved identifier'')]\<rparr>
     = Some (Inr (LoopDone ([] @ [TuplePatternElt (NamedPattern ''y'' NullType) None], True),
         \<lparr>Toks = [mkTok tok_r_paren '')''],
          Diags = [DiagAtToken (mkTok tok_identifier ''u'')
                     (other_diag ''unresolved identifier'')]\<rparr>))
   \<and> parsePattern simple_ext 2 (lex_start toks_xu_eq_1)
     = Some (Inr (SemaError,
         \<lparr>Toks = [mkTok tok_equal ''='', mkTok tok_other ''1'', mkTok tok_r_paren '')''],
          Diags = [DiagAtToken (mkTok tok_identifier ''u'')
                     (other_diag ''unresolved identifier'')]\<rparr>))
   \<and> parsePatternTuple_elts simple_ext (Suc 2) [] False (lex_start toks_xu_eq_1)
     = Some (Inr (LoopDone ([], True),
         \<lparr>Toks = [mkTok tok_r_paren '')''],
          Diags = [DiagAtToken (mkTok tok_identifier ''u'')
                     (other_diag ''unresolved identifier'')]\<rparr>))
   \<and> parsePattern simple_ext 0 (consumeToken (lex_start toks_xu_y_Int))
     = Some (Inr (Success (NamedPattern ''x'' NullType),
          lex_start (tl (tl toks_xu_y_Int))))
   \<and> parsePatternTuple_elts simple_ext (Suc 0) [] False (consumeToken (lex_start toks_xu_y_Int))
     = Some (Inr (LoopDone ([TuplePatternElt (NamedPattern ''x'' NullType) None], True),
         \<lparr>Toks = tl (tl (tl (tl toks_xu_y_Int))),
          Diags = [DiagAtToken (mkTok tok_identifier ''u'')
                     (other_diag ''unresolved identifier'')]\<rparr>))"
proof -
  let ?D = "[DiagAtToken (mkTok tok_identifier ''u'') (other_diag ''unresolved identifier'')]"
  let ?Pa = "consumeToken (lex_start toks_nested_xu_y)"
  let ?Pa1 = "\<lparr>Toks = [mkTok tok_comma '','', mkTok tok_identifier ''y'', mkTok tok_r_paren '')''],
               Diags = ?D\<rparr>"
  let ?Pa2 = "\<lparr>Toks = [mkTok tok_identifier ''y'', mkTok tok_r_paren '')''], Diags = ?D\<rparr>"
  let ?Pa3 = "\<lparr>Toks = [mkTok tok_r_paren '')''], Diags = ?D\<rparr>"
  let ?y = "TuplePatternElt (NamedPattern ''y'' NullType) None"
  let ?x = "TuplePatternElt (NamedPattern ''x'' NullType) None"
  have a1: "parsePattern simple_ext 3 ?Pa = Some (Inr (SemaError, ?Pa1))" by code_simp
  have a2: "\<not> Tok_is ?Pa1 tok_equal \<and> Tok_is ?Pa1 tok_comma \<and> consumeToken ?Pa1 = ?Pa2"
    by code_simp
  have a3: "parsePatternTuple_elts simple_ext (Suc 3) [] False ?Pa
              = parsePatternTuple_elts simple_ext 3 [] True ?Pa2"
    using parsePatternTuple_elts_soft_failure
      [where ext = simple_ext and n = 3 and P = ?Pa and ?P1.0 = ?Pa1 and elts = "[]"
         and hs = False] a1 a2
    by simp
  have a4: "parsePatternTuple_elts simple_ext 3 [] True ?Pa2
              = Some (Inr (LoopDone ([?y], True), ?Pa3))" by code_simp
  have a5: "True \<and> (\<exists>more. [?y] = [] @ more)"
    using parsePatternTuple_elts_soft_failure
      [where ext = simple_ext and m = 3 and Q = ?Pa2 and elts = "[]" and elts' = "[?y]"
         and hs' = True and Q' = ?Pa3] a4
    by blast
  let ?Pb1 = "\<lparr>Toks = [mkTok tok_equal ''='', mkTok tok_other ''1'', mkTok tok_r_paren '')''],
               Diags = ?D\<rparr>"
  have b1: "parsePattern simple_ext 2 (lex_start toks_xu_eq_1) = Some (Inr (SemaError, ?Pb1))"
    by code_simp
  have b2: "Tok_is ?Pb1 tok_equal
     \<and> parseExpr simple_ext expected_initializer_expr (consumeToken ?Pb1)
         = (Success (Expr ''1''), ?Pa3)
     \<and> \<not> Tok_is ?Pa3 tok_comma"
    by code_simp
  have b3: "parsePatternTuple_elts simple_ext (Suc 2) [] False (lex_start toks_xu_eq_1)
              = Some (Inr (LoopDone ([], True), ?Pa3))"
    using parsePatternTuple_elts_soft_failure
      [where ext = simple_ext and n = 2 and P = "lex_start toks_xu_eq_1" and ?P1.0 = ?Pb1
         and initR = "Success (Expr ''1'')" and ?P3.0 = ?Pa3 and elts = "[]" and hs = False]
      b1 b2
    by simp
  let ?Pc = "consumeToken (lex_start toks_xu_y_Int)"
  let ?Pc1 = "lex_start (tl (tl toks_xu_y_Int))"
  let ?Pc3 = "\<lparr>Toks = tl (tl (tl (tl toks_xu_y_Int))), Diags = ?D\<rparr>"
  have c1: "parsePattern simple_ext 0 ?Pc
              = Some (Inr (Success (NamedPattern ''x'' NullType), ?Pc1))"
    by code_simp
  have c2: "Tok_is ?Pc1 tok_equal
     \<and> parseExpr simple_ext expected_initializer_expr (consumeToken ?Pc1) = (SemaError, ?Pc3)
     \<and> \<not> Tok_is ?Pc3 tok_comma"
    by code_simp
  have c3: "parsePatternTuple_elts simple_ext (Suc 0) [] False ?Pc
              = Some (Inr (LoopDone ([?x], True), ?Pc3))"
    using parsePatternTuple_elts_soft_failure
      [where ext = simple_ext and n = 0 and P = ?Pc and ?P1.0 = ?Pc1 and ?P3.0 = ?Pc3
         and p = "NamedPattern ''x'' NullType" and elts = "[]" and hs = False]
      c1 c2
    by simp
  show ?thesis using a1 a3 a4 a5 b1 b3 c1 c3 by simp
qed


section \<open>Properties of parseFunctionSignature\<close>

text \<open>
  Whether the checker fails, and the tree it leaves, do not depend on the parser state it
  is run in: the state only collects the diagnostics.
\<close>

lemma cft_state_indep:
  "fst (checkFullyTyped bn P p) = fst (checkFullyTyped bn Q p)
   \<and> fst (snd (checkFullyTyped bn P p)) = fst (snd (checkFullyTyped bn Q p))"
  "fst (checkFullyTyped_fields bn P es acc) = fst (checkFullyTyped_fields bn Q es acc)
   \<and> fst (snd (checkFullyTyped_fields bn P es acc)) = fst (snd (checkFullyTyped_fields bn Q es acc))
   \<and> fst (snd (snd (checkFullyTyped_fields bn P es acc)))
       = fst (snd (snd (checkFullyTyped_fields bn Q es acc)))"
proof (induction bn P p and bn P es acc arbitrary: Q and Q
       rule: checkFullyTyped_checkFullyTyped_fields.induct)
  case (1 bn P sub t)
  then show ?case by simp
next
  case (2 bn P sub t)
  from "2.IH"[of Q] show ?case
    by (cases "checkFullyTyped bn P sub"; cases "checkFullyTyped bn Q sub") auto
next
  case (3 bn P elts t)
  from "3.IH"[of Q] show ?case
    by (cases "checkFullyTyped_fields bn P elts []"; cases "checkFullyTyped_fields bn Q elts []")
       auto
next
  case (4 bn P v t)
  then show ?case by simp
next
  case (5 bn P t)
  then show ?case by simp
next
  case (6 bn P typeElts)
  then show ?case by simp
next
  case (7 bn P subpattern init rest typeElts)
  obtain f sp P1 where c: "checkFullyTyped bn P subpattern = (f, sp, P1)"
    by (cases "checkFullyTyped bn P subpattern")
  obtain f' sp' Q1 where c': "checkFullyTyped bn Q subpattern = (f', sp', Q1)"
    by (cases "checkFullyTyped bn Q subpattern")
  from "7.IH"(1)[of Q] c c' have e: "f' = f" "sp' = sp" by simp_all
  show ?case
  proof (cases f)
    case True
    with c c' e show ?thesis by simp
  next
    case False
    let ?acc = "typeElts @ [TupleTypeElt (getType sp) (bn sp) init]"
    from "7.IH"(2)[OF c[symmetric] refl, of Q1] False
    have i: "fst (checkFullyTyped_fields bn P1 rest ?acc) = fst (checkFullyTyped_fields bn Q1 rest ?acc)
       \<and> fst (snd (checkFullyTyped_fields bn P1 rest ?acc)) = fst (snd (checkFullyTyped_fields bn Q1 rest ?acc))
       \<and> fst (snd (snd (checkFullyTyped_fields bn P1 rest ?acc)))
           = fst (snd (snd (checkFullyTyped_fields bn Q1 rest ?acc)))"
      by simp
    from c c' e False i show ?thesis
      by (cases "checkFullyTyped_fields bn P1 rest ?acc";
          cases "checkFullyTyped_fields bn Q1 rest ?acc") auto
  qed
qed

lemma paramType_state_indep: "paramType bn P p = paramType bn Q p"
  using cft_state_indep(1)[of bn P p Q]
  by (cases "checkFullyTyped bn P p"; cases "checkFullyTyped bn Q p") (auto simp: paramType_def)

lemma build_type:
  "j \<le> length params \<Longrightarrow>
   parseFunctionSignature_build ext j params ty P = (params', ty', P') \<Longrightarrow>
   ty' = foldr (\<lambda>param result. FunctionType (paramType (getBoundName ext) Q param) result)
           (take j params) ty
   \<and> length params' = length params"
proof (induction j arbitrary: params ty P)
  case 0
  then show ?case by simp
next
  case (Suc j)
  let ?bn = "getBoundName ext"
  obtain f param P1 where c: "checkFullyTyped ?bn P (params ! j) = (f, param, P1)"
    by (cases "checkFullyTyped ?bn P (params ! j)")
  have pt: "(if f then TupleType_getEmpty else getType param) = paramType ?bn Q (params ! j)"
    using c paramType_state_indep[of ?bn P "params ! j" Q] by (simp add: paramType_def)
  from Suc.prems(2) c pt
  have b: "parseFunctionSignature_build ext j (params[j := param])
             (FunctionType (paramType ?bn Q (params ! j)) ty) P1 = (params', ty', P')"
    by (simp add: Let_def)
  from Suc.prems(1) have j: "j \<le> length (params[j := param])" "j < length params" by simp_all
  from Suc.IH[OF j(1) b] j(2) show ?case
    by (simp add: take_Suc_conv_app_nth)
qed


lemma signature_success_cases:
  assumes "parseFunctionSignature ext n params ty P = Some (Inr ((False, params', ty'), P'))"
  obtains params1 hs P1 retTy P3 where
    "parseFunctionSignature_clauses ext n params False P = Some (Inr ((False, params1, hs), P1))"
    "if Tok_is P1 tok_arrow then parseType ext (consumeToken P1) = (Some retTy, P3)
     else retTy = TupleType_getEmpty \<and> P3 = P1"
    "parseFunctionSignature_build ext (length params1) params1 retTy P3 = (params', ty', P')"
proof (cases "parseFunctionSignature_clauses ext n params False P" rule: run_cases)
  case fuel
  with assms show ?thesis by (simp add: parseFunctionSignature_def)
next
  case (abort e)
  with assms show ?thesis by (simp add: parseFunctionSignature_def)
next
  case (returns r P1)
  obtain returned params1 hs where r: "r = (returned, params1, hs)" by (cases r)
  show ?thesis
  proof (cases returned)
    case True
    with returns r assms show ?thesis by (simp add: parseFunctionSignature_def ret_def)
  next
    case False
    show ?thesis
    proof (cases "Tok_is P1 tok_arrow")
      case True
      obtain rt P3 where pt: "parseType ext (consumeToken P1) = (rt, P3)"
        by (cases "parseType ext (consumeToken P1)")
      show ?thesis
      proof (cases rt)
        case None
        with returns r False True pt assms show ?thesis
          by (simp add: parseFunctionSignature_def ret_def consumeIf_def)
      next
        case (Some retTy)
        with returns r False True pt assms
        have "parseFunctionSignature_build ext (length params1) params1 retTy P3
                = (params', ty', P')"
          by (simp add: parseFunctionSignature_def ret_def consumeIf_def split: prod.splits)
        with returns r False True pt Some that[of params1 hs P1 retTy P3] show ?thesis by simp
      qed
    next
      case F2: False
      with returns r False assms
      have "parseFunctionSignature_build ext (length params1) params1 TupleType_getEmpty P1
                = (params', ty', P')"
        by (simp add: parseFunctionSignature_def ret_def consumeIf_def split: prod.splits)
      with returns r False F2 that[of params1 hs P1 TupleType_getEmpty P1] show ?thesis by simp
    qed
  qed
qed


lemma signature_from_clauses:
  assumes c: "parseFunctionSignature_clauses ext n params False P
                = Some (Inr ((False, params1, hs), P1))"
    and r: "if Tok_is P1 tok_arrow then parseType ext (consumeToken P1) = (Some retTy, P3)
            else retTy = TupleType_getEmpty \<and> P3 = P1"
  shows "parseFunctionSignature ext n params ty P =
           Some (Inr ((False,
                 fst (parseFunctionSignature_build ext (length params1) params1 retTy P3),
                 foldr (\<lambda>param result. FunctionType (paramType (getBoundName ext) Q param) result)
                   params1 retTy),
               snd (snd (parseFunctionSignature_build ext (length params1) params1 retTy P3))))"
proof -
  obtain params2 ty2 P4 where
    b: "parseFunctionSignature_build ext (length params1) params1 retTy P3 = (params2, ty2, P4)"
    by (cases "parseFunctionSignature_build ext (length params1) params1 retTy P3")
  from build_type[OF _ b, of Q]
  have t: "ty2 = foldr (\<lambda>param result. FunctionType (paramType (getBoundName ext) Q param) result)
                   params1 retTy" by simp
  show ?thesis
  proof (cases "Tok_is P1 tok_arrow")
    case True
    with r have "parseType ext (consumeToken P1) = (Some retTy, P3)" by simp
    with c b t True show ?thesis
      by (simp add: parseFunctionSignature_def consumeIf_def ret_def)
  next
    case False
    with r have "retTy = TupleType_getEmpty" "P3 = P1" by simp_all
    with c b t False show ?thesis
      by (simp add: parseFunctionSignature_def consumeIf_def ret_def)
  qed
qed

text \<open>
  C5: \<open>parseFunctionSignature\<close> builds its type from the return type by folding the clause
  patterns from the last to the first: each step makes \<open>FunctionType(paramType, result)\<close>,
  where \<open>paramType\<close> is the type the checker gives the clause pattern, or the empty tuple
  type when the checker fails on it; a failing clause does not stop the fold. The return
  type is the type parsed after the arrow, or the empty tuple type when there is no arrow.
  Every successful result has this type; and after a clause loop that ends normally the
  function does succeed with it, both without an arrow and with an arrow followed by a
  type, while an arrow followed by no type is a failure.
\<close>

theorem parseFunctionSignature_type:
  "(parseFunctionSignature ext n params ty P = Some (Inr ((False, params', ty'), P')) \<longrightarrow>
      (\<exists>params1 hs P1 retTy.
         parseFunctionSignature_clauses ext n params False P
           = Some (Inr ((False, params1, hs), P1))
         \<and> (if Tok_is P1 tok_arrow then fst (parseType ext (consumeToken P1)) = Some retTy
            else retTy = TupleType_getEmpty)
         \<and> ty' = foldr (\<lambda>param result.
                           FunctionType (paramType (getBoundName ext) Q param) result)
                   params1 retTy))
   \<and> (parseFunctionSignature_clauses ext n params False P
          = Some (Inr ((False, params1, hs), P1))
        \<and> \<not> Tok_is P1 tok_arrow \<longrightarrow>
      parseFunctionSignature ext n params ty P =
        Some (Inr ((False,
              fst (parseFunctionSignature_build ext (length params1) params1
                     TupleType_getEmpty P1),
              foldr (\<lambda>param result. FunctionType (paramType (getBoundName ext) Q param) result)
                params1 TupleType_getEmpty),
            snd (snd (parseFunctionSignature_build ext (length params1) params1
                        TupleType_getEmpty P1)))))
   \<and> (parseFunctionSignature_clauses ext n params False P
          = Some (Inr ((False, params1, hs), P1))
        \<and> Tok_is P1 tok_arrow
        \<and> parseType ext (consumeToken P1) = (Some retTy, P3) \<longrightarrow>
      parseFunctionSignature ext n params ty P =
        Some (Inr ((False,
              fst (parseFunctionSignature_build ext (length params1) params1 retTy P3),
              foldr (\<lambda>param result. FunctionType (paramType (getBoundName ext) Q param) result)
                params1 retTy),
            snd (snd (parseFunctionSignature_build ext (length params1) params1 retTy P3)))))
   \<and> (parseFunctionSignature_clauses ext n params False P
          = Some (Inr ((False, params1, hs), P1))
        \<and> Tok_is P1 tok_arrow
        \<and> parseType ext (consumeToken P1) = (None, P3) \<longrightarrow>
      parseFunctionSignature ext n params ty P = Some (Inr ((True, params1, ty), P3)))"
proof -
  have c1: "parseFunctionSignature ext n params ty P = Some (Inr ((False, params', ty'), P')) \<longrightarrow>
      (\<exists>params1 hs P1 retTy.
         parseFunctionSignature_clauses ext n params False P
           = Some (Inr ((False, params1, hs), P1))
         \<and> (if Tok_is P1 tok_arrow then fst (parseType ext (consumeToken P1)) = Some retTy
            else retTy = TupleType_getEmpty)
         \<and> ty' = foldr (\<lambda>param result.
                           FunctionType (paramType (getBoundName ext) Q param) result)
                   params1 retTy)"
  proof
    assume "parseFunctionSignature ext n params ty P = Some (Inr ((False, params', ty'), P'))"
    then show "\<exists>params1 hs P1 retTy.
         parseFunctionSignature_clauses ext n params False P
           = Some (Inr ((False, params1, hs), P1))
         \<and> (if Tok_is P1 tok_arrow then fst (parseType ext (consumeToken P1)) = Some retTy
            else retTy = TupleType_getEmpty)
         \<and> ty' = foldr (\<lambda>param result.
                           FunctionType (paramType (getBoundName ext) Q param) result)
                   params1 retTy"
    proof (cases rule: signature_success_cases)
      case (1 params1 hs P1 retTy P3)
      from build_type[OF _ 1(3), of Q]
      have "ty' = foldr (\<lambda>param result.
                           FunctionType (paramType (getBoundName ext) Q param) result)
                   params1 retTy" by simp
      moreover from 1(2)
      have "if Tok_is P1 tok_arrow then fst (parseType ext (consumeToken P1)) = Some retTy
            else retTy = TupleType_getEmpty" by (simp split: if_splits)
      ultimately show ?thesis using 1(1) by blast
    qed
  qed
  have c2: "parseFunctionSignature_clauses ext n params False P
          = Some (Inr ((False, params1, hs), P1))
        \<and> \<not> Tok_is P1 tok_arrow \<longrightarrow>
      parseFunctionSignature ext n params ty P =
        Some (Inr ((False,
              fst (parseFunctionSignature_build ext (length params1) params1
                     TupleType_getEmpty P1),
              foldr (\<lambda>param result. FunctionType (paramType (getBoundName ext) Q param) result)
                params1 TupleType_getEmpty),
            snd (snd (parseFunctionSignature_build ext (length params1) params1
                        TupleType_getEmpty P1))))"
    using signature_from_clauses[of ext n params P params1 hs P1 TupleType_getEmpty P1 ty Q]
    by simp
  have c3: "parseFunctionSignature_clauses ext n params False P
          = Some (Inr ((False, params1, hs), P1))
        \<and> Tok_is P1 tok_arrow
        \<and> parseType ext (consumeToken P1) = (Some retTy, P3) \<longrightarrow>
      parseFunctionSignature ext n params ty P =
        Some (Inr ((False,
              fst (parseFunctionSignature_build ext (length params1) params1 retTy P3),
              foldr (\<lambda>param result. FunctionType (paramType (getBoundName ext) Q param) result)
                params1 retTy),
            snd (snd (parseFunctionSignature_build ext (length params1) params1 retTy P3))))"
    using signature_from_clauses[of ext n params P params1 hs P1 retTy P3 ty Q]
    by simp
  have c4: "parseFunctionSignature_clauses ext n params False P
          = Some (Inr ((False, params1, hs), P1))
        \<and> Tok_is P1 tok_arrow
        \<and> parseType ext (consumeToken P1) = (None, P3) \<longrightarrow>
      parseFunctionSignature ext n params ty P = Some (Inr ((True, params1, ty), P3))"
    by (simp add: parseFunctionSignature_def consumeIf_def ret_def)
  from c1 c2 c3 c4 show ?thesis by (intro conjI)
qed


theorem parseFunctionSignature_type_witness:
  "parseFunctionSignature simple_ext 4 [] NullType (lex_start toks_x_y_Int)
     = Some (Inr ((False,
          [TuplePattern [TuplePatternElt (NamedPattern ''x'' NullType) None] NullType,
           TuplePattern
             [TuplePatternElt (TypedPattern (NamedPattern ''y'' NullType) (NamedType ''Int'')) None]
             (TupleType [TupleTypeElt (NamedType ''Int'') ''y'' None])],
          FunctionType (TupleType [])
            (FunctionType (TupleType [TupleTypeElt (NamedType ''Int'') ''y'' None])
               (NamedType ''Int''))),
        \<lparr>Toks = [],
         Diags = [DiagAtPattern (NamedPattern ''x'' NullType)
                    untyped_pattern_in_function_signature]\<rparr>))
   \<and> (\<exists>params1 hs P1 retTy.
        parseFunctionSignature_clauses simple_ext 4 [] False (lex_start toks_x_y_Int)
          = Some (Inr ((False, params1, hs), P1))
        \<and> (if Tok_is P1 tok_arrow
           then fst (parseType simple_ext (consumeToken P1)) = Some retTy
           else retTy = TupleType_getEmpty)
        \<and> FunctionType (TupleType [])
            (FunctionType (TupleType [TupleTypeElt (NamedType ''Int'') ''y'' None])
               (NamedType ''Int''))
          = foldr (\<lambda>param result.
                     FunctionType (paramType (getBoundName simple_ext) (lex_start []) param) result)
              params1 retTy)
   \<and> parseFunctionSignature_clauses simple_ext 2 [] False (lex_start toks_unit)
       = Some (Inr ((False, [TuplePattern [] NullType], False), lex_start []))
   \<and> \<not> Tok_is (lex_start []) tok_arrow
   \<and> parseFunctionSignature simple_ext 2 [] NullType (lex_start toks_unit)
       = Some (Inr ((False, [TuplePattern [] (TupleType [])],
                     FunctionType (TupleType []) (TupleType [])), lex_start []))
   \<and> parseFunctionSignature_clauses simple_ext 4 [] False (lex_start toks_x_y_Int)
       = Some (Inr ((False,
            [TuplePattern [TuplePatternElt (NamedPattern ''x'' NullType) None] NullType,
             TuplePattern
               [TuplePatternElt (TypedPattern (NamedPattern ''y'' NullType) (NamedType ''Int''))
                  None]
               NullType],
            False),
          lex_start [mkTok tok_arrow ''->'', mkTok tok_identifier ''Int'']))
   \<and> Tok_is (lex_start [mkTok tok_arrow ''->'', mkTok tok_identifier ''Int'']) tok_arrow
   \<and> parseType simple_ext
        (consumeToken (lex_start [mkTok tok_arrow ''->'', mkTok tok_identifier ''Int'']))
       = (Some (NamedType ''Int''), lex_start [])
   \<and> parseFunctionSignature_clauses simple_ext 2 [] False
        (lex_start (toks_unit @ [mkTok tok_arrow ''->'']))
       = Some (Inr ((False, [TuplePattern [] NullType], False),
                    lex_start [mkTok tok_arrow ''->'']))
   \<and> parseType simple_ext (consumeToken (lex_start [mkTok tok_arrow ''->'']))
       = (None,
          \<lparr>Toks = [],
           Diags = [DiagAtToken \<lparr>Kind = tok_eof, Text = []\<rparr> (other_diag ''expected type'')]\<rparr>)
   \<and> parseFunctionSignature simple_ext 2 [] NullType
        (lex_start (toks_unit @ [mkTok tok_arrow ''->'']))
       = Some (Inr ((True, [TuplePattern [] NullType], NullType),
          \<lparr>Toks = [],
           Diags = [DiagAtToken \<lparr>Kind = tok_eof, Text = []\<rparr> (other_diag ''expected type'')]\<rparr>))"
proof -
  let ?x = "TuplePattern [TuplePatternElt (NamedPattern ''x'' NullType) None] NullType"
  let ?y = "TuplePattern
               [TuplePatternElt (TypedPattern (NamedPattern ''y'' NullType) (NamedType ''Int''))
                  None]
               NullType"
  let ?Pa = "lex_start [mkTok tok_arrow ''->'', mkTok tok_identifier ''Int'']"
  have h: "parseFunctionSignature simple_ext 4 [] NullType (lex_start toks_x_y_Int)
     = Some (Inr ((False,
          [TuplePattern [TuplePatternElt (NamedPattern ''x'' NullType) None] NullType,
           TuplePattern
             [TuplePatternElt (TypedPattern (NamedPattern ''y'' NullType) (NamedType ''Int'')) None]
             (TupleType [TupleTypeElt (NamedType ''Int'') ''y'' None])],
          FunctionType (TupleType [])
            (FunctionType (TupleType [TupleTypeElt (NamedType ''Int'') ''y'' None])
               (NamedType ''Int''))),
        \<lparr>Toks = [],
         Diags = [DiagAtPattern (NamedPattern ''x'' NullType)
                    untyped_pattern_in_function_signature]\<rparr>))"
    by code_simp
  have a: "\<exists>params1 hs P1 retTy.
        parseFunctionSignature_clauses simple_ext 4 [] False (lex_start toks_x_y_Int)
          = Some (Inr ((False, params1, hs), P1))
        \<and> (if Tok_is P1 tok_arrow
           then fst (parseType simple_ext (consumeToken P1)) = Some retTy
           else retTy = TupleType_getEmpty)
        \<and> FunctionType (TupleType [])
            (FunctionType (TupleType [TupleTypeElt (NamedType ''Int'') ''y'' None])
               (NamedType ''Int''))
          = foldr (\<lambda>param result.
                     FunctionType (paramType (getBoundName simple_ext) (lex_start []) param) result)
              params1 retTy"
    using parseFunctionSignature_type
            [where ext = simple_ext and n = 4 and params = "[]" and ty = NullType
               and P = "lex_start toks_x_y_Int" and Q = "lex_start []"] h
    by blast
  have u1: "parseFunctionSignature_clauses simple_ext 2 [] False (lex_start toks_unit)
       = Some (Inr ((False, [TuplePattern [] NullType], False), lex_start []))"
    by code_simp
  have u2: "\<not> Tok_is (lex_start []) tok_arrow" by code_simp
  have u3: "fst (parseFunctionSignature_build simple_ext (length [TuplePattern [] NullType])
                   [TuplePattern [] NullType] TupleType_getEmpty (lex_start []))
              = [TuplePattern [] (TupleType [])]
     \<and> foldr (\<lambda>param result.
                FunctionType (paramType (getBoundName simple_ext) (lex_start []) param) result)
          [TuplePattern [] NullType] TupleType_getEmpty
        = FunctionType (TupleType []) (TupleType [])
     \<and> snd (snd (parseFunctionSignature_build simple_ext (length [TuplePattern [] NullType])
                   [TuplePattern [] NullType] TupleType_getEmpty (lex_start [])))
        = lex_start []"
    by code_simp
  have u4: "parseFunctionSignature simple_ext 2 [] NullType (lex_start toks_unit) =
        Some (Inr ((False,
              fst (parseFunctionSignature_build simple_ext (length [TuplePattern [] NullType])
                     [TuplePattern [] NullType] TupleType_getEmpty (lex_start [])),
              foldr (\<lambda>param result.
                       FunctionType (paramType (getBoundName simple_ext) (lex_start []) param)
                         result)
                [TuplePattern [] NullType] TupleType_getEmpty),
            snd (snd (parseFunctionSignature_build simple_ext
                        (length [TuplePattern [] NullType]) [TuplePattern [] NullType]
                        TupleType_getEmpty (lex_start [])))))"
    using parseFunctionSignature_type
            [where ext = simple_ext and n = 2 and params = "[]" and ty = NullType
               and P = "lex_start toks_unit" and Q = "lex_start []"
               and ?params1.0 = "[TuplePattern [] NullType]" and hs = False
               and ?P1.0 = "lex_start []"] u1 u2
    by blast
  have u5: "parseFunctionSignature simple_ext 2 [] NullType (lex_start toks_unit)
       = Some (Inr ((False, [TuplePattern [] (TupleType [])],
                     FunctionType (TupleType []) (TupleType [])), lex_start []))"
    using u4 u3 by simp
  have v1: "parseFunctionSignature_clauses simple_ext 4 [] False (lex_start toks_x_y_Int)
       = Some (Inr ((False, [?x, ?y], False), ?Pa))"
    by code_simp
  have v2: "Tok_is ?Pa tok_arrow" by code_simp
  have v3: "parseType simple_ext (consumeToken ?Pa) = (Some (NamedType ''Int''), lex_start [])"
    by code_simp
  let ?Pe = "\<lparr>Toks = [],
           Diags = [DiagAtToken \<lparr>Kind = tok_eof, Text = []\<rparr> (other_diag ''expected type'')]\<rparr>"
  have w1: "parseFunctionSignature_clauses simple_ext 2 [] False
        (lex_start (toks_unit @ [mkTok tok_arrow ''->'']))
       = Some (Inr ((False, [TuplePattern [] NullType], False),
                    lex_start [mkTok tok_arrow ''->'']))"
    by code_simp
  have w2: "Tok_is (lex_start [mkTok tok_arrow ''->'']) tok_arrow" by code_simp
  have w3: "parseType simple_ext (consumeToken (lex_start [mkTok tok_arrow ''->''])) = (None, ?Pe)"
    by code_simp
  have w4: "parseFunctionSignature simple_ext 2 [] NullType
        (lex_start (toks_unit @ [mkTok tok_arrow ''->'']))
       = Some (Inr ((True, [TuplePattern [] NullType], NullType), ?Pe))"
    using parseFunctionSignature_type
            [where ext = simple_ext and n = 2 and params = "[]" and ty = NullType
               and P = "lex_start (toks_unit @ [mkTok tok_arrow ''->''])"
               and ?params1.0 = "[TuplePattern [] NullType]" and hs = False
               and ?P1.0 = "lex_start [mkTok tok_arrow ''->'']" and ?P3.0 = ?Pe] w1 w2 w3
    by blast
  show ?thesis
    by (rule conjI[OF h conjI[OF a conjI[OF u1 conjI[OF u2 conjI[OF u5 conjI[OF v1
          conjI[OF v2 conjI[OF v3 conjI[OF w1 conjI[OF w3 w4]]]]]]]]]])
qed






section \<open>The parsers return\<close>

text \<open>
  When the external parsers never add tokens, every parser of this file returns once the
  fuel exceeds twice the number of remaining tokens by two: each call of
  \<open>parsePatternTuple\<close> consumes the opening parenthesis and each further iteration of a loop
  consumes a comma or a clause.
\<close>

lemma Toks_consumeToken [simp]: "length (Toks (consumeToken P)) = length (Toks P) - 1"
  by (simp add: consumeToken_def)

lemma Toks_diagnose [simp]: "Toks (diagnose d P) = Toks P"
  by (simp add: diagnose_def)

lemma Toks_skipUntil: "length (Toks (skipUntil k P)) \<le> length (Toks P)"
  using length_dropWhile_le[of "\<lambda>t. Kind t \<noteq> k" "Toks P"] by (simp add: skipUntil_def)

lemma Tok_is_nonempty: "Tok_is P k \<Longrightarrow> k \<noteq> tok_eof \<Longrightarrow> Toks P \<noteq> []"
  by (auto simp add: Tok_is_def Tok_def)

lemma returns_withinE:
  assumes "returns_within m k"
  obtains a P' where "m = Some (Inr (a, P'))" "length (Toks P') \<le> k"
  using assms by (auto simp add: returns_within_def split: option.splits sum.splits)

lemma returns_within_ret [simp]: "returns_within (ret a P) k = (length (Toks P) \<le> k)"
  by (simp add: returns_within_def ret_def)

lemma returns_within_mono: "returns_within m k \<Longrightarrow> k \<le> k' \<Longrightarrow> returns_within m k'"
  by (auto simp add: returns_within_def split: option.splits sum.splits)

lemma atom_returns:
  assumes "\<And>P. 2 * length (Toks P) + 1 \<le> n \<Longrightarrow> Tok_is P tok_l_paren \<or> Tok_is P tok_l_paren_space \<Longrightarrow>
              returns_within (parsePatternTuple ext n P) (length (Toks P) - 1)"
    and "2 * length (Toks P) + 1 \<le> n"
  shows "returns_within (parsePatternAtom ext n P) (length (Toks P))"
proof (cases "Tok_is P tok_l_paren \<or> Tok_is P tok_l_paren_space")
  case True
  from assms(1)[OF assms(2) True]
  have "returns_within (parsePatternTuple ext n P) (length (Toks P))"
    by (rule returns_within_mono) simp
  with True show ?thesis by (auto simp add: parsePatternAtom.simps Tok_is_def)
next
  case False
  then show ?thesis
    by (simp add: parsePatternAtom.simps Tok_is_def Let_def split: tok.splits)
qed

lemma pattern_returns:
  assumes "returns_within (parsePatternAtom ext n P) (length (Toks P))"
    and "\<And>Q. length (Toks (snd (parseType ext Q))) \<le> length (Toks Q)"
  shows "returns_within (parsePattern ext n P) (length (Toks P))"
proof -
  from assms(1) obtain pattern P1 where
    a: "parsePatternAtom ext n P = Some (Inr (pattern, P1))" "length (Toks P1) \<le> length (Toks P)"
    by (rule returns_withinE)
  show ?thesis
  proof (cases "isParseError pattern \<or> \<not> Tok_is P1 tok_colon")
    case True
    with a show ?thesis by (auto simp add: parsePattern.simps consumeIf_def)
  next
    case False
    obtain rt P3 where pt: "parseType ext (consumeToken P1) = (rt, P3)"
      by (cases "parseType ext (consumeToken P1)")
    with assms(2)[of "consumeToken P1"] a(2) have "length (Toks P3) \<le> length (Toks P)" by simp
    with False a pt show ?thesis
      by (auto simp add: parsePattern.simps consumeIf_def split: option.splits ParseResult.splits)
  qed
qed

lemma elts_returns:
  assumes pat: "\<And>P. 2 * length (Toks P) + 1 \<le> n \<Longrightarrow>
                  returns_within (parsePattern ext n P) (length (Toks P))"
    and loop: "\<And>elts hs P. 2 * length (Toks P) + 2 \<le> n \<Longrightarrow>
                  returns_within (parsePatternTuple_elts ext n elts hs P) (length (Toks P))"
    and ex: "\<And>d Q. length (Toks (snd (parseExpr ext d Q))) \<le> length (Toks Q)"
    and n: "2 * length (Toks P) + 2 \<le> Suc n"
  shows "returns_within (parsePatternTuple_elts ext (Suc n) elts hs P) (length (Toks P))"
proof -
  from n have "2 * length (Toks P) + 1 \<le> n" by simp
  from pat[OF this] obtain pattern P1 where
    a: "parsePattern ext n P = Some (Inr (pattern, P1))" "length (Toks P1) \<le> length (Toks P)"
    by (rule returns_withinE)
  show ?thesis
  proof (cases "isParseError pattern")
    case True
    with a Toks_skipUntil[of tok_r_paren P1] show ?thesis
      by (simp add: parsePatternTuple_elts.simps(2))
  next
    case False
    define step where "step =
        (case consumeIf tok_equal P1 of
               (True, P2) \<Rightarrow>
                 (case parseExpr ext expected_initializer_expr P2 of
                    (ParseError, P3) \<Rightarrow> Inl (skipUntil tok_r_paren P3)
                  | (SemaError, P3) \<Rightarrow> Inr (None, True, P3)
                  | (Success e, P3) \<Rightarrow> Inr (Some e, hs, P3))
             | (False, P2) \<Rightarrow> Inr (None, hs, P2))"
    have unfold: "parsePatternTuple_elts ext (Suc n) elts hs P =
       (case step of
            Inl P3 \<Rightarrow> ret ReturnTrue P3
          | Inr (init, hasSemaError1, P3) \<Rightarrow>
              (case
                 (case pattern of
                    Success p \<Rightarrow> (elts @ [TuplePatternElt p init], hasSemaError1)
                  | _ \<Rightarrow> (elts, True))
               of (elts', hasSemaError2) \<Rightarrow>
                 (case consumeIf tok_comma P3 of
                    (True, P4) \<Rightarrow> parsePatternTuple_elts ext n elts' hasSemaError2 P4
                  | (False, P4) \<Rightarrow> ret (LoopDone (elts', hasSemaError2)) P4)))"
      using a False by (simp add: parsePatternTuple_elts.simps(2) step_def)
    have ex': "length (Toks (snd (parseExpr ext expected_initializer_expr (consumeToken P1))))
                 \<le> length (Toks P)"
      using ex[of expected_initializer_expr "consumeToken P1"] a(2) by simp
    show ?thesis
    proof (cases step)
      case (Inl Q)
      then have "\<exists>P3. Q = skipUntil tok_r_paren P3 \<and> length (Toks P3) \<le> length (Toks P)"
        using ex'
        by (auto simp add: step_def consumeIf_def split: if_splits prod.splits ParseResult.splits)
      then have "length (Toks Q) \<le> length (Toks P)"
        using Toks_skipUntil le_trans by blast
      with Inl unfold show ?thesis by simp
    next
      case (Inr x)
      obtain init hs1 P3 where x: "x = (init, hs1, P3)" by (cases x)
      from Inr x have P3: "length (Toks P3) \<le> length (Toks P)"
        using ex' a(2)
        by (auto simp add: step_def consumeIf_def split: if_splits prod.splits ParseResult.splits)
      obtain elts2 hs2 where eh: "(case pattern of
                    Success p \<Rightarrow> (elts @ [TuplePatternElt p init], hs1)
                  | _ \<Rightarrow> (elts, True)) = (elts2, hs2)"
        by (cases "(case pattern of
                    Success p \<Rightarrow> (elts @ [TuplePatternElt p init], hs1)
                  | _ \<Rightarrow> (elts, True))")
      show ?thesis
      proof (cases "Tok_is P3 tok_comma")
        case True
        then have ne: "Toks P3 \<noteq> []" by (rule Tok_is_nonempty) simp
        with P3 n have "2 * length (Toks (consumeToken P3)) + 2 \<le> n"
          by (cases "Toks P3") auto
        from loop[OF this, of elts2 hs2]
        have "returns_within (parsePatternTuple_elts ext n elts2 hs2 (consumeToken P3))
                (length (Toks P))"
          using P3 by (elim returns_within_mono) simp
        with unfold Inr x eh True show ?thesis by (simp add: consumeIf_def)
      next
        case False
        with unfold Inr x eh P3 show ?thesis by (simp add: consumeIf_def)
      qed
    qed
  qed
qed

lemma tuple_returns:
  assumes loop: "\<And>elts hs P. 2 * length (Toks P) + 2 \<le> n \<Longrightarrow>
                  returns_within (parsePatternTuple_elts ext n elts hs P) (length (Toks P))"
    and n: "2 * length (Toks P) + 1 \<le> Suc n"
    and lp: "Tok_is P tok_l_paren \<or> Tok_is P tok_l_paren_space"
  shows "returns_within (parsePatternTuple ext (Suc n) P) (length (Toks P) - 1)"
proof -
  from lp have ne: "Toks P \<noteq> []" using Tok_is_nonempty by blast
  let ?P1 = "consumeToken P"
  show ?thesis
  proof (cases "Tok_is ?P1 tok_r_paren")
    case True
    with lp show ?thesis
      by (auto simp add: parsePatternTuple.simps(2) Let_def)
  next
    case False
    from ne n have "2 * length (Toks ?P1) + 2 \<le> n" by (cases "Toks P") auto
    from loop[OF this, of "[]" False] obtain r P2 where
      l: "parsePatternTuple_elts ext n [] False ?P1 = Some (Inr (r, P2))"
         "length (Toks P2) \<le> length (Toks ?P1)"
      by (rule returns_withinE)
    have s: "length (Toks (skipUntil tok_r_paren
               (diagnose (DiagAtToken (Tok P2) expected_rparen_tuple_pattern_list) P2)))
             \<le> length (Toks P) - 1"
      using Toks_skipUntil[of tok_r_paren
               "diagnose (DiagAtToken (Tok P2) expected_rparen_tuple_pattern_list) P2"] l(2)
      by simp
    from False lp l s show ?thesis
      by (auto simp add: parsePatternTuple.simps(2) Let_def split: loop_exit.splits)
  qed
qed


lemma parsers_return:
  assumes ex: "\<And>d Q. length (Toks (snd (parseExpr ext d Q))) \<le> length (Toks Q)"
    and ty: "\<And>Q. length (Toks (snd (parseType ext Q))) \<le> length (Toks Q)"
  shows "(\<forall>P. 2 * length (Toks P) + 1 \<le> n \<longrightarrow>
            returns_within (parsePattern ext n P) (length (Toks P)))
   \<and> (\<forall>P. 2 * length (Toks P) + 1 \<le> n \<longrightarrow>
            returns_within (parsePatternAtom ext n P) (length (Toks P)))
   \<and> (\<forall>P. 2 * length (Toks P) + 1 \<le> n \<longrightarrow>
            Tok_is P tok_l_paren \<or> Tok_is P tok_l_paren_space \<longrightarrow>
            returns_within (parsePatternTuple ext n P) (length (Toks P) - 1))
   \<and> (\<forall>elts hs P. 2 * length (Toks P) + 2 \<le> n \<longrightarrow>
            returns_within (parsePatternTuple_elts ext n elts hs P) (length (Toks P)))"
proof (induction n)
  case 0
  show ?case by simp
next
  case (Suc n)
  have l: "\<And>elts hs P. 2 * length (Toks P) + 2 \<le> Suc n \<Longrightarrow>
             returns_within (parsePatternTuple_elts ext (Suc n) elts hs P) (length (Toks P))"
    using elts_returns[of n ext] Suc ex by blast
  have t: "\<And>P. 2 * length (Toks P) + 1 \<le> Suc n \<Longrightarrow>
             Tok_is P tok_l_paren \<or> Tok_is P tok_l_paren_space \<Longrightarrow>
             returns_within (parsePatternTuple ext (Suc n) P) (length (Toks P) - 1)"
    using tuple_returns[of n ext] Suc by blast
  have a: "\<And>P. 2 * length (Toks P) + 1 \<le> Suc n \<Longrightarrow>
             returns_within (parsePatternAtom ext (Suc n) P) (length (Toks P))"
    using atom_returns[of "Suc n" ext] t by blast
  have p: "\<And>P. 2 * length (Toks P) + 1 \<le> Suc n \<Longrightarrow>
             returns_within (parsePattern ext (Suc n) P) (length (Toks P))"
    using pattern_returns[of ext "Suc n"] a ty by blast
  show ?case using l t a p by blast
qed

lemma clauses_return:
  assumes ex: "\<And>d Q. length (Toks (snd (parseExpr ext d Q))) \<le> length (Toks Q)"
    and ty: "\<And>Q. length (Toks (snd (parseType ext Q))) \<le> length (Toks Q)"
  shows "2 * length (Toks P) + 2 \<le> n \<Longrightarrow>
         Tok_is P tok_l_paren \<or> Tok_is P tok_l_paren_space \<Longrightarrow>
         returns_within (parseFunctionSignature_clauses ext n params hs P) (length (Toks P))"
proof (induction n arbitrary: params hs P)
  case 0
  then show ?case by simp
next
  case (Suc n)
  from Suc.prems have "2 * length (Toks P) + 1 \<le> n" by simp
  with parsers_return[OF ex ty, of n] Suc.prems(2)
  have "returns_within (parsePatternTuple ext n P) (length (Toks P) - 1)" by blast
  then obtain pattern P1 where
    t: "parsePatternTuple ext n P = Some (Inr (pattern, P1))"
       "length (Toks P1) \<le> length (Toks P) - 1"
    by (rule returns_withinE)
  from Suc.prems(2) have ne: "Toks P \<noteq> []" using Tok_is_nonempty by blast
  with t(2) Suc.prems(1) have n1: "2 * length (Toks P1) + 2 \<le> n" by (cases "Toks P") auto
  from t(2) have le: "length (Toks P1) \<le> length (Toks P)" by simp
  have next_iter: "\<And>ps h. Tok_is P1 tok_l_paren \<or> Tok_is P1 tok_l_paren_space \<Longrightarrow>
      returns_within (parseFunctionSignature_clauses ext n ps h P1) (length (Toks P))"
    using Suc.IH[OF n1] le returns_within_mono by blast
  show ?case
  proof (cases pattern)
    case (Success p)
    with t le next_iter[of "params @ [p]" hs] show ?thesis by auto
  next
    case ParseError
    with t le show ?thesis by simp
  next
    case SemaError
    with t le next_iter[of params True] show ?thesis by auto
  qed
qed

lemma parseFunctionSignature_returns:
  assumes ex: "\<And>d Q. length (Toks (snd (parseExpr ext d Q))) \<le> length (Toks Q)"
    and ty: "\<And>Q. length (Toks (snd (parseType ext Q))) \<le> length (Toks Q)"
    and n: "2 * length (Toks P) + 2 \<le> n"
    and lp: "Tok_is P tok_l_paren \<or> Tok_is P tok_l_paren_space"
  shows "\<exists>failed params' ty' P'.
           parseFunctionSignature ext n params ty P = Some (Inr ((failed, params', ty'), P'))"
proof -
  from clauses_return[OF ex ty n lp, of params False] obtain r P1 where
    c: "parseFunctionSignature_clauses ext n params False P = Some (Inr (r, P1))"
    by (rule returns_withinE)
  obtain returned params1 hs where r: "r = (returned, params1, hs)" by (cases r)
  show ?thesis
    using c r
    by (cases "parseFunctionSignature_build ext (length params1) params1 TupleType_getEmpty P1";
        cases "parseType ext (consumeToken P1)";
        cases "fst (parseType ext (consumeToken P1))";
        cases "parseFunctionSignature_build ext (length params1) params1
                 (the (fst (parseType ext (consumeToken P1))))
                 (snd (parseType ext (consumeToken P1)))")
       (auto simp add: parseFunctionSignature_def ret_def consumeIf_def)
qed

lemma simple_ext_consumes:
  "length (Toks (snd (parseExpr simple_ext d Q))) \<le> length (Toks Q)"
  "length (Toks (snd (parseType simple_ext Q))) \<le> length (Toks Q)"
  by (simp_all add: simple_ext_def simple_parseExpr_def simple_parseType_def)

text \<open>The small instance of the external parsers never adds tokens, so with it every
  signature that starts with an opening parenthesis is parsed to the end.\<close>

lemma simple_parseFunctionSignature_returns:
  assumes "2 * length (Toks P) + 2 \<le> n"
    and "Tok_is P tok_l_paren \<or> Tok_is P tok_l_paren_space"
  shows "\<exists>failed params' ty' P'.
           parseFunctionSignature simple_ext n params ty P
             = Some (Inr ((failed, params', ty'), P'))"
  using parseFunctionSignature_returns[OF simple_ext_consumes assms] .

end
